theory Spec2Isabelle
  imports Complex_Main "HOL-Library.Word" "HOL-Library.Monad_Syntax"
begin

unbundle bit_operations_syntax

section \<open>Data model of src/simCore.ts\<close>

text \<open>
  JavaScript numbers are doubles. The integer-valued ones (ticks, health, damage, scaled
  positions, the 32-bit generator words) are modelled as \<open>nat\<close>, \<open>int\<close> and \<open>32 word\<close>;
  the real-valued inputs of a match description and the intermediate quotients are
  modelled as exact \<open>real\<close>s, which is what the doubles hold as long as magnitudes stay
  below \<open>2 ^ 53\<close>.
\<close>

record 'a Vec =
  vec_x :: 'a
  vec_y :: 'a

record WeaponDef =
  w_reach :: real
  w_tipRadius :: real
  w_omega :: int
  w_baseDamage :: int
  w_ramp :: int
  w_speedMult :: int

datatype ballId = IdA | IdB

record BallSpec =
  b_id :: ballId
  b_hp :: int
  b_radius :: real
  b_pos :: "real Vec"
  b_vel :: "real Vec"
  b_weaponId :: string
  b_restitution :: "int option"

text \<open>
  Every field below is a \<open>number\<close> in the source. \<open>sim.maxTicks\<close> is a non-negative
  integer in a match description, and the tick counter counts up from 0: both are \<open>nat\<close>.
\<close>

record SimConfig =
  scale :: int
  maxTicks :: nat

record ArenaConfig =
  arena_w :: real
  arena_h :: real
  wallRestitution :: int

record MatchSpec =
  seed :: int
  weaponSetVersion :: "string option"
  sim :: SimConfig
  arena :: ArenaConfig
  weapons :: "string \<rightharpoonup> WeaponDef"
  ballA :: BallSpec
  ballB :: BallSpec

datatype side = SideL | SideR | SideT | SideB

datatype Event =
    Wall nat ballId side
  | Collide nat ballId ballId
  | Hit nat ballId ballId int
  | Dead nat ballId
  | Timeout nat ballId

record BallState =
  bid :: ballId
  hp :: int
  r :: int
  pos :: "int Vec"
  vel :: "int Vec"
  theta :: int
  omega :: int
  weaponReach :: int
  tipR :: int
  baseDamage :: int
  ramp :: int
  hitCount :: int
  alive :: bool
  speedMult :: int
  damageDealt :: int
  restitution :: int

text \<open>
  \<open>rng\<close> is the captured variable \<open>t\<close> of the closure that \<open>mulberry32\<close> returns;
  \<open>isDone\<close> is the field \<open>done\<close>, \<open>stA\<close> and \<open>stB\<close> are the fields \<open>A\<close> and \<open>B\<close>.
\<close>

record SimState =
  spec :: MatchSpec
  SCALE :: int
  arenaW :: int
  arenaH :: int
  wallRest :: int
  tick :: nat
  stA :: BallState
  stB :: BallState
  events :: "Event list"
  rng :: int
  isDone :: bool
  winner :: "ballId option"

section \<open>Deterministic PRNG\<close>

text \<open>
  \<open>t = seed >>> 0\<close>: the seed reduced to an unsigned 32-bit value.
\<close>

definition mulberry32 :: "int \<Rightarrow> int" where
  "mulberry32 sd = uint (word_of_int sd :: 32 word)"

text \<open>
  One call of the closure. \<open>t += 0x6D2B79F5\<close> is a number addition (no wrap); the
  bitwise operators and \<open>Math.imul\<close> then work on the low 32 bits of \<open>t\<close>. The result
  is the pair of the value returned, in \<open>[0, 1)\<close>, and the new \<open>t\<close>.
\<close>

definition rngNext :: "int \<Rightarrow> real \<times> int" where
  "rngNext t0 =
     (let t = t0 + 0x6D2B79F5;
          w = (word_of_int t :: 32 word);
          x = (w XOR drop_bit 15 w) * (1 OR w);
          x = x XOR (x + (x XOR drop_bit 7 x) * (61 OR x))
      in (real_of_int (uint (x XOR drop_bit 14 x)) / 4294967296, t))"

section \<open>Trig lookup\<close>

definition ANGLE_FULL :: int where
  "ANGLE_FULL = 65536"

definition TRIG_SCALE :: int where
  "TRIG_SCALE = 1000000"

text \<open>
  \<open>Math.round\<close>: the nearest integer, a tie going to the larger one
  (\<open>floor (x + 1/2)\<close>).
\<close>

definition mathRound :: "real \<Rightarrow> int" where
  "mathRound v = \<lfloor>v + 1 / 2\<rfloor>"

definition COS :: "int \<Rightarrow> int" where
  "COS a = mathRound (cos (real_of_int a / real_of_int ANGLE_FULL * pi * 2) * real_of_int TRIG_SCALE)"

definition SIN :: "int \<Rightarrow> int" where
  "SIN a = mathRound (sin (real_of_int a / real_of_int ANGLE_FULL * pi * 2) * real_of_int TRIG_SCALE)"

section \<open>Helpers\<close>

definition scaleVec :: "real Vec \<Rightarrow> int \<Rightarrow> int Vec" where
  "scaleVec v sc =
     \<lparr>vec_x = mathRound (vec_x v * real_of_int sc), vec_y = mathRound (vec_y v * real_of_int sc)\<rparr>"

definition dist2 :: "int Vec \<Rightarrow> int Vec \<Rightarrow> int" where
  "dist2 a b = (let dx = vec_x a - vec_x b; dy = vec_y a - vec_y b in dx * dx + dy * dy)"

text \<open>
  \<open>1 / Math.sqrt(n)\<close>. The model has no infinities and no NaN: where the JavaScript
  result would not be a finite number (a zero divisor at \<open>n = 0\<close>, the square root of
  a negative number) the result is \<open>None\<close>.
\<close>

definition numDiv :: "real \<Rightarrow> real \<Rightarrow> real option" where
  "numDiv a b = (if b = 0 then None else Some (a / b))"

definition approxInvSqrt :: "int \<Rightarrow> real option" where
  "approxInvSqrt n = (if n < 0 then None else numDiv 1 (sqrt (real_of_int n)))"











section \<open>Core engine\<close>

fun other :: "ballId \<Rightarrow> ballId" where
  "other IdA = IdB"
| "other IdB = IdA"

fun getBall :: "ballId \<Rightarrow> SimState \<Rightarrow> BallState" where
  "getBall IdA s = stA s"
| "getBall IdB s = stB s"

fun setBall :: "ballId \<Rightarrow> BallState \<Rightarrow> SimState \<Rightarrow> SimState" where
  "setBall IdA b s = s\<lparr>stA := b\<rparr>"
| "setBall IdB b s = s\<lparr>stB := b\<rparr>"

text \<open>
  The tables are read at \<open>ball.theta\<close>, which \<open>initBall\<close> and \<open>stepSim\<close> keep in
  \<open>0..65535\<close>.
\<close>

definition weaponTipScaled :: "BallState \<Rightarrow> int Vec" where
  "weaponTipScaled ball =
     (let c = COS (theta ball); sn = SIN (theta ball)
      in \<lparr>vec_x = vec_x (pos ball) + mathRound (real_of_int (weaponReach ball * c) / real_of_int TRIG_SCALE),
          vec_y = vec_y (pos ball) + mathRound (real_of_int (weaponReach ball * sn) / real_of_int TRIG_SCALE)\<rparr>)"

definition applyWallBounce :: "ballId \<Rightarrow> SimState \<Rightarrow> SimState" where
  "applyWallBounce i s =
     (let t = tick s; aW = arenaW s; aH = arenaH s; rest = wallRest s;
          ball = getBall i s;
          (ball, evs) =
            (if vec_x (pos ball) - r ball < 0 then
               (ball\<lparr>pos := (pos ball)\<lparr>vec_x := r ball\<rparr>,
                     vel := (vel ball)\<lparr>vec_x := mathRound (real_of_int (- vec_x (vel ball) * rest) / 1000)\<rparr>\<rparr>,
                events s @ [Wall t (bid ball) SideL])
             else if vec_x (pos ball) + r ball > aW then
               (ball\<lparr>pos := (pos ball)\<lparr>vec_x := aW - r ball\<rparr>,
                     vel := (vel ball)\<lparr>vec_x := mathRound (real_of_int (- vec_x (vel ball) * rest) / 1000)\<rparr>\<rparr>,
                events s @ [Wall t (bid ball) SideR])
             else (ball, events s));
          (ball, evs) =
            (if vec_y (pos ball) - r ball < 0 then
               (ball\<lparr>pos := (pos ball)\<lparr>vec_y := r ball\<rparr>,
                     vel := (vel ball)\<lparr>vec_y := mathRound (real_of_int (- vec_y (vel ball) * rest) / 1000)\<rparr>\<rparr>,
                evs @ [Wall t (bid ball) SideT])
             else if vec_y (pos ball) + r ball > aH then
               (ball\<lparr>pos := (pos ball)\<lparr>vec_y := aH - r ball\<rparr>,
                     vel := (vel ball)\<lparr>vec_y := mathRound (real_of_int (- vec_y (vel ball) * rest) / 1000)\<rparr>\<rparr>,
                evs @ [Wall t (bid ball) SideB])
             else (ball, evs))
      in setBall i ball (s\<lparr>events := evs\<rparr>))"

text \<open>
  \<open>resolveBallBallCollision(state, A, B)\<close> is only called with \<open>state.A\<close> and
  \<open>state.B\<close>. The result is \<open>None\<close> where a division would have a zero divisor.
\<close>

definition resolveBallBallCollision :: "SimState \<Rightarrow> SimState option" where
  "resolveBallBallCollision s =
     (let A = stA s; B = stB s in
      if \<not> alive A \<or> \<not> alive B then Some s
      else
        let dx = vec_x (pos B) - vec_x (pos A);
            dy = vec_y (pos B) - vec_y (pos A);
            rSum = r A + r B;
            d2 = dx * dx + dy * dy
        in if d2 = 0 then Some s
           else if d2 > rSum * rSum then Some s
           else do {
             invLen \<leftarrow> approxInvSqrt d2;
             let nx = real_of_int dx * invLen;
             let ny = real_of_int dy * invLen;
             let rvx = vec_x (vel B) - vec_x (vel A);
             let rvy = vec_y (vel B) - vec_y (vel A);
             let velAlongNormal = real_of_int rvx * nx + real_of_int rvy * ny;
             let e = real_of_int (min (restitution A) (restitution B)) / 1000;
             let invMassA = (1 :: real);
             let invMassB = (1 :: real);
             let j = - (1 + e) * velAlongNormal / (invMassA + invMassB);
             let impulseX = j * nx;
             let impulseY = j * ny;
             let A = A\<lparr>vel := \<lparr>vec_x = vec_x (vel A) - mathRound (impulseX * invMassA),
                                vec_y = vec_y (vel A) - mathRound (impulseY * invMassA)\<rparr>\<rparr>;
             let B = B\<lparr>vel := \<lparr>vec_x = vec_x (vel B) + mathRound (impulseX * invMassB),
                                vec_y = vec_y (vel B) + mathRound (impulseY * invMassB)\<rparr>\<rparr>;
             let evs = events s @ [Collide (tick s) (bid A) (bid B)];
             dist \<leftarrow> numDiv 1 invLen;
             let overlap = real_of_int rSum - dist;
             if overlap > 0 then
               let pushX = nx * (overlap / 2);
                   pushY = ny * (overlap / 2);
                   A = A\<lparr>pos := \<lparr>vec_x = vec_x (pos A) - mathRound pushX,
                                  vec_y = vec_y (pos A) - mathRound pushY\<rparr>\<rparr>;
                   B = B\<lparr>pos := \<lparr>vec_x = vec_x (pos B) + mathRound pushX,
                                  vec_y = vec_y (pos B) + mathRound pushY\<rparr>\<rparr>
               in Some (s\<lparr>stA := A, stB := B, events := evs\<rparr>)
             else Some (s\<lparr>stA := A, stB := B, events := evs\<rparr>)
           })"

text \<open>
  \<open>checkHit(state, attacker, victim)\<close> is called with \<open>(A, B)\<close> and with \<open>(B, A)\<close>:
  the victim is the other ball.
\<close>

definition checkHit :: "ballId \<Rightarrow> SimState \<Rightarrow> SimState" where
  "checkHit att s =
     (let attacker = getBall att s; victim = getBall (other att) s in
      if \<not> alive attacker \<or> \<not> alive victim then s
      else
        let tip = weaponTipScaled attacker;
            rr = tipR attacker + r victim
        in if dist2 tip (pos victim) \<le> rr * rr then
             let attacker = attacker\<lparr>hitCount := hitCount attacker + 1\<rparr>;
                 dmg = baseDamage attacker + ramp attacker * (hitCount attacker - 1);
                 victim = victim\<lparr>hp := hp victim - dmg\<rparr>;
                 attacker = attacker\<lparr>damageDealt := damageDealt attacker + dmg\<rparr>;
                 evs = events s @ [Hit (tick s) (bid attacker) (bid victim) dmg];
                 (u1, g1) = rngNext (rng s);
                 jx = mathRound ((u1 - 0.5) * 20 * real_of_int (SCALE s));
                 (u2, g2) = rngNext g1;
                 jy = mathRound ((u2 - 0.5) * 20 * real_of_int (SCALE s));
                 victim = victim\<lparr>vel := \<lparr>vec_x = vec_x (vel victim) + jx,
                                          vec_y = vec_y (vel victim) + jy\<rparr>\<rparr>;
                 (victim, evs) =
                   (if hp victim \<le> 0
                    then (victim\<lparr>alive := False\<rparr>, evs @ [Dead (tick s) (bid victim)])
                    else (victim, evs))
             in setBall (other att) victim (setBall att attacker (s\<lparr>events := evs, rng := g2\<rparr>))
           else s)"

section \<open>Construction\<close>

datatype error = Error string

text \<open>
  The outcome of a constructor call: it throws, it returns a value, or it returns an
  object some of whose numeric fields are \<open>undefined\<close> or \<open>NaN\<close>, which the
  integer fields of \<open>BallState\<close> cannot hold and the model follows no further.
\<close>

datatype 'a outcome = Threw error | Returned 'a | ReturnedNaN

text \<open>
  A match description is a plain object (the runner builds it with \<open>JSON.parse\<close>), so
  the property read \<open>spec.weapons[b.weaponId]\<close> looks at the object's own properties
  first and then at those it inherits from \<open>Object.prototype\<close>.
\<close>

definition objectPrototypeKeys :: "string list" where
  "objectPrototypeKeys =
     [''constructor'', ''hasOwnProperty'', ''isPrototypeOf'', ''propertyIsEnumerable'',
      ''toLocaleString'', ''toString'', ''valueOf'', ''__proto__'',
      ''__defineGetter__'', ''__defineSetter__'', ''__lookupGetter__'', ''__lookupSetter__'']"

datatype 'a property = Own 'a | Inherited | Undefined

definition getProperty :: "(string \<rightharpoonup> 'a) \<Rightarrow> string \<Rightarrow> 'a property" where
  "getProperty obj k =
     (case obj k of
        Some v \<Rightarrow> Own v
      | None \<Rightarrow> if k \<in> set objectPrototypeKeys then Inherited else Undefined)"

text \<open>
  \<open>!weapon\<close> holds for \<open>undefined\<close> only: an inherited member is a function or an
  object, and reading \<open>omega\<close>, \<open>reach\<close> and the other fields from it gives
  \<open>undefined\<close>.
\<close>

definition initBall :: "MatchSpec \<Rightarrow> int \<Rightarrow> BallSpec \<Rightarrow> int \<Rightarrow> BallState outcome" where
  "initBall sp SCALE0 b jitter =
     (case getProperty (weapons sp) (b_weaponId b) of
        Undefined \<Rightarrow> Threw (Error (''Unknown weaponId: '' @ b_weaponId b))
      | Inherited \<Rightarrow> ReturnedNaN
      | Own weapon \<Rightarrow>
          let g = mulberry32 (uint ((word_of_int (seed sp) :: 32 word) XOR word_of_int jitter));
              (u, g) = rngNext g;
              theta0 = \<lfloor>u * real_of_int ANGLE_FULL\<rfloor> AND 0xffff
          in Returned
               \<lparr>bid = b_id b,
                hp = b_hp b,
                r = mathRound (b_radius b * real_of_int SCALE0),
                pos = scaleVec (b_pos b) SCALE0,
                vel = scaleVec (b_vel b) SCALE0,
                theta = theta0,
                omega = w_omega weapon,
                weaponReach = mathRound (w_reach weapon * real_of_int SCALE0),
                tipR = mathRound (w_tipRadius weapon * real_of_int SCALE0),
                baseDamage = w_baseDamage weapon,
                ramp = w_ramp weapon,
                hitCount = 0,
                alive = True,
                speedMult = w_speedMult weapon,
                damageDealt = 0,
                restitution = (case b_restitution b of None \<Rightarrow> 1000 | Some e \<Rightarrow> e)\<rparr>)"

text \<open>
  The object literal evaluates \<open>A: initBall(...)\<close> before \<open>B: initBall(...)\<close>; a
  throw of either leaves no state.
\<close>

definition createSim :: "MatchSpec \<Rightarrow> SimState outcome" where
  "createSim sp =
     (let SCALE0 = scale (sim sp);
          aW = mathRound (arena_w (arena sp) * real_of_int SCALE0);
          aH = mathRound (arena_h (arena sp) * real_of_int SCALE0)
      in case initBall sp SCALE0 (ballA sp) 0xA1B2C3D4 of
           Threw e \<Rightarrow> Threw e
         | ra \<Rightarrow>
             (case initBall sp SCALE0 (ballB sp) 0xB4C3D2A1 of
                Threw e \<Rightarrow> Threw e
              | rb \<Rightarrow>
                  (case (ra, rb) of
                     (Returned a, Returned b) \<Rightarrow>
                       Returned
                         \<lparr>spec = sp,
                          SCALE = SCALE0,
                          arenaW = aW,
                          arenaH = aH,
                          wallRest = wallRestitution (arena sp),
                          tick = 0,
                          stA = a,
                          stB = b,
                          events = [],
                          rng = mulberry32 (seed sp),
                          isDone = False,
                          winner = None\<rparr>
                   | _ \<Rightarrow> ReturnedNaN)))"

section \<open>Stepping\<close>

text \<open>Step 1 of the pipeline, for one ball: \<open>theta = (theta + omega) & 0xffff\<close>.\<close>

definition updateAngle :: "BallState \<Rightarrow> BallState" where
  "updateAngle b = b\<lparr>theta := (theta b + omega b) AND 0xffff\<rparr>"

text \<open>Step 2, for one ball: \<open>pos += Math.round(vel * speedMult / 1000)\<close> on each axis.\<close>

definition moveBall :: "BallState \<Rightarrow> BallState" where
  "moveBall b =
     b\<lparr>pos := \<lparr>vec_x = vec_x (pos b) + mathRound (real_of_int (vec_x (vel b) * speedMult b) / 1000),
                 vec_y = vec_y (pos b) + mathRound (real_of_int (vec_y (vel b) * speedMult b) / 1000)\<rparr>\<rparr>"

text \<open>The winner that the timeout branch resolves, with the generator state it leaves.\<close>

definition timeoutWinner :: "SimState \<Rightarrow> ballId \<times> int" where
  "timeoutWinner s =
     (let A = stA s; B = stB s in
      if hp A \<noteq> hp B then (if hp A > hp B then IdA else IdB, rng s)
      else if damageDealt A \<noteq> damageDealt B
        then (if damageDealt A > damageDealt B then IdA else IdB, rng s)
      else let (u, g) = rngNext (rng s) in (if u < 0.5 then IdA else IdB, g))"

text \<open>
  The \<open>if (!A.alive || !B.alive)\<close> blocks at the start and at the end of \<open>stepSim\<close>.
\<close>

definition markDead :: "SimState \<Rightarrow> SimState" where
  "markDead s = s\<lparr>isDone := True, winner := Some (if alive (stA s) then IdA else IdB)\<rparr>"

text \<open>Steps 1 to 4 of the pipeline, in the order \<open>stepSim\<close> runs them.\<close>

definition beforeHits :: "SimState \<Rightarrow> SimState option" where
  "beforeHits s =
     (let s = s\<lparr>stA := updateAngle (stA s)\<rparr>;
          s = s\<lparr>stB := updateAngle (stB s)\<rparr>;
          s = s\<lparr>stA := moveBall (stA s)\<rparr>;
          s = s\<lparr>stB := moveBall (stB s)\<rparr>;
          s = applyWallBounce IdA s;
          s = applyWallBounce IdB s
      in resolveBallBallCollision s)"

definition stepSim :: "SimState \<Rightarrow> SimState option" where
  "stepSim s =
     (if isDone s then Some s
      else if \<not> alive (stA s) \<or> \<not> alive (stB s) then Some (markDead s)
      else if tick s \<ge> maxTicks (sim (spec s)) then
        (let (w, g) = timeoutWinner s
         in Some (s\<lparr>events := events s @ [Timeout (tick s) w], rng := g,
                     isDone := True, winner := Some w\<rparr>))
      else do {
        s \<leftarrow> beforeHits s;
        let s = checkHit IdA s;
        let s = checkHit IdB s;
        let s = s\<lparr>tick := tick s + 1\<rparr>;
        Some (if \<not> alive (stA s) \<or> \<not> alive (stB s) then markDead s else s)
      })"


text \<open>\<open>n\<close> calls of \<open>stepSim\<close> in a row.\<close>

fun stepN :: "nat \<Rightarrow> SimState \<Rightarrow> SimState option" where
  "stepN 0 s = Some s"
| "stepN (Suc n) s = Option.bind (stepN n s) stepSim"

text \<open>A description's state after construction and \<open>n\<close> calls of \<open>stepSim\<close>.\<close>

definition simAfter :: "MatchSpec \<Rightarrow> nat \<Rightarrow> SimState option" where
  "simAfter sp n = (case createSim sp of Returned s \<Rightarrow> stepN n s | _ \<Rightarrow> None)"

text \<open>
  The contact test of \<open>checkHit\<close> for attacker \<open>i\<close>, and the damage a hit of \<open>i\<close>
  deals: \<open>baseDamage + ramp * (hitCount - 1)\<close> after \<open>hitCount += 1\<close>.
\<close>

definition hitLands :: "ballId \<Rightarrow> SimState \<Rightarrow> bool" where
  "hitLands i s =
     (let attacker = getBall i s; victim = getBall (other i) s; rr = tipR attacker + r victim
      in alive attacker \<and> alive victim \<and> dist2 (weaponTipScaled attacker) (pos victim) \<le> rr * rr)"

definition hitDamage :: "ballId \<Rightarrow> SimState \<Rightarrow> int" where
  "hitDamage i s =
     (let attacker = getBall i s
      in baseDamage attacker + ramp attacker * ((hitCount attacker + 1) - 1))"

text \<open>
  What steps 1 to 4 leave alone: the state with position, velocity and weapon angle of
  both balls and the event log blanked out. Those steps append only \<open>wall\<close> and
  \<open>collide\<close> events.
\<close>

definition ballFrame :: "BallState \<Rightarrow> BallState" where
  "ballFrame b = b\<lparr>pos := \<lparr>vec_x = 0, vec_y = 0\<rparr>, vel := \<lparr>vec_x = 0, vec_y = 0\<rparr>, theta := 0\<rparr>"

definition simFrame :: "SimState \<Rightarrow> SimState" where
  "simFrame s = s\<lparr>stA := ballFrame (stA s), stB := ballFrame (stB s), events := []\<rparr>"

fun motionEvent :: "Event \<Rightarrow> bool" where
  "motionEvent (Wall t i sd) = True"
| "motionEvent (Collide t a b) = True"
| "motionEvent e = False"

text \<open>
  Step 5, the tick increment and the final \<open>if (!A.alive || !B.alive)\<close> of \<open>stepSim\<close>,
  from the state that step 4 leaves.
\<close>

definition endTick :: "SimState \<Rightarrow> SimState" where
  "endTick s =
     (let s = checkHit IdA s;
          s = checkHit IdB s;
          s = s\<lparr>tick := tick s + 1\<rparr>
      in if \<not> alive (stA s) \<or> \<not> alive (stB s) then markDead s else s)"

section \<open>Example descriptions\<close>

text \<open>
  Two motionless balls of radius 2 in a 100 by 100 arena, scale 1, seed 1; both carry a
  weapon of reach 0 and tip radius 1 that deals \<open>dmg\<close>. Ball A is at (50, 50), ball B at
  (\<open>xB\<close>, 50): with \<open>xB = 50\<close> the centres coincide and every tick is a hit, with
  \<open>xB = 80\<close> no hit ever lands.
\<close>

definition exampleWeapon :: "int \<Rightarrow> WeaponDef" where
  "exampleWeapon dmg =
     \<lparr>w_reach = 0, w_tipRadius = 1, w_omega = 100, w_baseDamage = dmg, w_ramp = 1, w_speedMult = 1000\<rparr>"

definition exampleSpec :: "int \<Rightarrow> int \<Rightarrow> int \<Rightarrow> int \<Rightarrow> nat \<Rightarrow> MatchSpec" where
  "exampleSpec xB dmg hpA hpB mt =
     \<lparr>seed = 1, weaponSetVersion = None, sim = \<lparr>scale = 1, maxTicks = mt\<rparr>,
      arena = \<lparr>arena_w = 100, arena_h = 100, wallRestitution = 1000\<rparr>,
      weapons = [''sword'' \<mapsto> exampleWeapon dmg],
      ballA = \<lparr>b_id = IdA, b_hp = hpA, b_radius = 2, b_pos = \<lparr>vec_x = 50, vec_y = 50\<rparr>,
               b_vel = \<lparr>vec_x = 0, vec_y = 0\<rparr>, b_weaponId = ''sword'', b_restitution = None\<rparr>,
      ballB = \<lparr>b_id = IdB, b_hp = hpB, b_radius = 2, b_pos = \<lparr>vec_x = real_of_int xB, vec_y = 50\<rparr>,
               b_vel = \<lparr>vec_x = 0, vec_y = 0\<rparr>, b_weaponId = ''sword'', b_restitution = None\<rparr>\<rparr>"

text \<open>The state of an example after \<open>n\<close> ticks without a hit: only the angles have moved.\<close>

definition exampleState :: "int \<Rightarrow> int \<Rightarrow> int \<Rightarrow> int \<Rightarrow> nat \<Rightarrow> nat \<Rightarrow> SimState" where
  "exampleState xB dmg hpA hpB mt n =
     \<lparr>spec = exampleSpec xB dmg hpA hpB mt,
      SCALE = 1, arenaW = 100, arenaH = 100, wallRest = 1000, tick = n,
      stA = \<lparr>bid = IdA, hp = hpA, r = 2, pos = \<lparr>vec_x = 50, vec_y = 50\<rparr>,
             vel = \<lparr>vec_x = 0, vec_y = 0\<rparr>, theta = 18057 + 100 * int n, omega = 100,
             weaponReach = 0, tipR = 1, baseDamage = dmg, ramp = 1, hitCount = 0,
             alive = True, speedMult = 1000, damageDealt = 0, restitution = 1000\<rparr>,
      stB = \<lparr>bid = IdB, hp = hpB, r = 2, pos = \<lparr>vec_x = xB, vec_y = 50\<rparr>,
             vel = \<lparr>vec_x = 0, vec_y = 0\<rparr>, theta = 40941 + 100 * int n, omega = 100,
             weaponReach = 0, tipR = 1, baseDamage = dmg, ramp = 1, hitCount = 0,
             alive = True, speedMult = 1000, damageDealt = 0, restitution = 1000\<rparr>,
      events = [], rng = 1, isDone = False, winner = None\<rparr>"

text \<open>
  The same description with ball A's weapon identifier replaced by one that the weapon
  mapping does not hold.
\<close>

definition withWeaponIdA :: "string \<Rightarrow> MatchSpec \<Rightarrow> MatchSpec" where
  "withWeaponIdA k sp = sp\<lparr>ballA := (ballA sp)\<lparr>b_weaponId := k\<rparr>\<rparr>"

section \<open>The canonical event-log form, in the spec's words\<close>





section \<open>Basic facts\<close>

lemma getBall_setBall_same: "getBall i (setBall i b s) = b" by (cases i) simp_all
lemma getBall_setBall_other: "getBall (other i) (setBall i b s) = getBall (other i) s" by (cases i) simp_all
lemma getBall_setBall_other': "getBall i (setBall (other i) b s) = getBall i s" by (cases i) simp_all
lemma other_other: "other (other i) = i" by (cases i) simp_all
lemma other_neq: "other i \<noteq> i" by (cases i) simp_all

lemma ballFrame_fields:
  "bid (ballFrame b) = bid b" "hp (ballFrame b) = hp b" "r (ballFrame b) = r b"
  "omega (ballFrame b) = omega b" "weaponReach (ballFrame b) = weaponReach b" "tipR (ballFrame b) = tipR b"
  "baseDamage (ballFrame b) = baseDamage b" "ramp (ballFrame b) = ramp b" "hitCount (ballFrame b) = hitCount b"
  "alive (ballFrame b) = alive b" "speedMult (ballFrame b) = speedMult b" "damageDealt (ballFrame b) = damageDealt b"
  "restitution (ballFrame b) = restitution b"
  by (simp_all add: ballFrame_def)

lemma ballFrame_eqD:
  assumes "ballFrame b' = ballFrame b"
  shows "bid b' = bid b \<and> hp b' = hp b \<and> r b' = r b \<and> omega b' = omega b \<and> weaponReach b' = weaponReach b
    \<and> tipR b' = tipR b \<and> baseDamage b' = baseDamage b \<and> ramp b' = ramp b \<and> hitCount b' = hitCount b
    \<and> alive b' = alive b \<and> speedMult b' = speedMult b \<and> damageDealt b' = damageDealt b \<and> restitution b' = restitution b"
  using ballFrame_fields[of b', unfolded assms] by (simp add: ballFrame_fields)

lemma simFrame_fields:
  "spec (simFrame s) = spec s" "SCALE (simFrame s) = SCALE s" "arenaW (simFrame s) = arenaW s"
  "arenaH (simFrame s) = arenaH s" "wallRest (simFrame s) = wallRest s" "tick (simFrame s) = tick s"
  "rng (simFrame s) = rng s" "isDone (simFrame s) = isDone s" "winner (simFrame s) = winner s"
  "stA (simFrame s) = ballFrame (stA s)" "stB (simFrame s) = ballFrame (stB s)"
  by (simp_all add: simFrame_def)

lemma simFrame_eqD:
  assumes "simFrame s' = simFrame s"
  shows "spec s' = spec s \<and> SCALE s' = SCALE s \<and> arenaW s' = arenaW s \<and> arenaH s' = arenaH s
    \<and> wallRest s' = wallRest s \<and> tick s' = tick s \<and> rng s' = rng s \<and> isDone s' = isDone s
    \<and> winner s' = winner s \<and> ballFrame (stA s') = ballFrame (stA s) \<and> ballFrame (stB s') = ballFrame (stB s)"
  using simFrame_fields[of s', unfolded assms] by (simp add: simFrame_fields)

lemma ballFrame_updateAngle: "ballFrame (updateAngle b) = ballFrame b"
  by (simp add: ballFrame_def updateAngle_def)
lemma ballFrame_moveBall: "ballFrame (moveBall b) = ballFrame b"
  by (simp add: ballFrame_def moveBall_def)

lemma applyWallBounce_frame: "simFrame (applyWallBounce i s) = simFrame s"
  by (cases i) (simp_all add: applyWallBounce_def simFrame_def ballFrame_def Let_def split_def)

lemma applyWallBounce_events:
  "\<exists>es. events (applyWallBounce i s) = events s @ es \<and> (\<forall>e\<in>set es. motionEvent e)"
  by (cases i) (simp_all add: applyWallBounce_def Let_def split_def)


lemma approxInvSqrt_pos: "0 < n \<Longrightarrow> approxInvSqrt n = Some (1 / sqrt (real_of_int n))"
  by (simp add: approxInvSqrt_def numDiv_def)

lemma approxInvSqrt_None_iff: "approxInvSqrt n = None \<longleftrightarrow> n \<le> 0"
  by (auto simp: approxInvSqrt_def numDiv_def)

lemma sum_squares_pos: "(a::int) * a + b * b \<noteq> 0 \<Longrightarrow> 0 < a * a + b * b"
  by (metis not_sum_squares_lt_zero linorder_neqE_linordered_idom)

lemma numDiv_inv: "0 < (n::int) \<Longrightarrow> numDiv 1 (1 / sqrt (real_of_int n)) = Some (sqrt (real_of_int n))"
  by (simp add: numDiv_def)

lemma resolve_total: "\<exists>s'. resolveBallBallCollision s = Some s'"
proof -
  let ?dx = "vec_x (pos (stB s)) - vec_x (pos (stA s))"
  let ?dy = "vec_y (pos (stB s)) - vec_y (pos (stA s))"
  let ?d2 = "?dx * ?dx + ?dy * ?dy"
  show ?thesis
  proof (cases "?d2 = 0")
    case True
    then show ?thesis by (simp add: resolveBallBallCollision_def Let_def)
  next
    case False
    then have pos: "0 < ?d2" by (rule sum_squares_pos)
    then show ?thesis
      by (simp add: resolveBallBallCollision_def Let_def approxInvSqrt_pos numDiv_inv del: of_int_add of_int_mult)
  qed
qed

lemma resolve_frame:
  assumes "resolveBallBallCollision s = Some s'"
  shows "simFrame s' = simFrame s"
  using assms
  by (auto simp: resolveBallBallCollision_def Let_def simFrame_def ballFrame_def
      split: if_splits Option.bind_splits)

lemma resolve_events:
  assumes "resolveBallBallCollision s = Some s'"
  shows "\<exists>es. events s' = events s @ es \<and> (\<forall>e\<in>set es. motionEvent e)"
  using assms
  by (auto simp: resolveBallBallCollision_def Let_def split: if_splits Option.bind_splits)

lemma beforeHits_total: "\<exists>s'. beforeHits s = Some s'"
  by (simp add: beforeHits_def Let_def resolve_total)

lemma beforeHits_frame:
  assumes "beforeHits s = Some s'"
  shows "simFrame s' = simFrame s"
proof -
  from assms have "simFrame s' = simFrame (s\<lparr>stA := moveBall (updateAngle (stA s)), stB := moveBall (updateAngle (stB s))\<rparr>)"
    by (simp add: beforeHits_def Let_def resolve_frame applyWallBounce_frame)
  also have "\<dots> = simFrame s"
    by (simp add: simFrame_def ballFrame_moveBall ballFrame_updateAngle)
  finally show ?thesis .
qed

lemma beforeHits_events:
  assumes "beforeHits s = Some s'"
  shows "\<exists>es. events s' = events s @ es \<and> (\<forall>e\<in>set es. motionEvent e)"
proof -
  let ?s0 = "s\<lparr>stA := moveBall (updateAngle (stA s)), stB := moveBall (updateAngle (stB s))\<rparr>"
  let ?s1 = "applyWallBounce IdA ?s0"
  let ?s2 = "applyWallBounce IdB ?s1"
  from assms have r: "resolveBallBallCollision ?s2 = Some s'"
    by (simp add: beforeHits_def Let_def)
  obtain e1 where e1: "events ?s1 = events s @ e1" "\<forall>e\<in>set e1. motionEvent e"
    using applyWallBounce_events[of IdA ?s0] by auto
  obtain e2 where e2: "events ?s2 = events ?s1 @ e2" "\<forall>e\<in>set e2. motionEvent e"
    using applyWallBounce_events[of IdB ?s1] by auto
  obtain e3 where e3: "events s' = events ?s2 @ e3" "\<forall>e\<in>set e3. motionEvent e"
    using resolve_events[OF r] by auto
  have "events s' = events s @ (e1 @ e2 @ e3)" using e1 e2 e3 by simp
  moreover have "\<forall>e\<in>set (e1 @ e2 @ e3). motionEvent e" using e1 e2 e3 by auto
  ultimately show ?thesis by blast
qed


lemma checkHit_miss: "\<not> hitLands i s \<Longrightarrow> checkHit i s = s"
  by (auto simp: checkHit_def hitLands_def Let_def)

lemma checkHit_frame_fields:
  "spec (checkHit i s) = spec s" "SCALE (checkHit i s) = SCALE s" "tick (checkHit i s) = tick s"
  "isDone (checkHit i s) = isDone s" "winner (checkHit i s) = winner s"
  "arenaW (checkHit i s) = arenaW s" "arenaH (checkHit i s) = arenaH s" "wallRest (checkHit i s) = wallRest s"
  by (cases i; simp add: checkHit_def Let_def split_def)+

lemma checkHit_attacker:
  assumes "hitLands i s"
  shows "getBall i (checkHit i s) =
    (getBall i s)\<lparr>hitCount := hitCount (getBall i s) + 1,
                   damageDealt := damageDealt (getBall i s) + hitDamage i s\<rparr>"
  using assms by (cases i) (simp_all add: checkHit_def hitLands_def hitDamage_def Let_def split_def)

lemma checkHit_victim:
  assumes "hitLands i s"
  shows "hp (getBall (other i) (checkHit i s)) = hp (getBall (other i) s) - hitDamage i s"
    and "alive (getBall (other i) (checkHit i s)) \<longleftrightarrow> 0 < hp (getBall (other i) s) - hitDamage i s"
    and "bid (getBall (other i) (checkHit i s)) = bid (getBall (other i) s)"
    and "hitCount (getBall (other i) (checkHit i s)) = hitCount (getBall (other i) s)"
    and "baseDamage (getBall (other i) (checkHit i s)) = baseDamage (getBall (other i) s)"
    and "ramp (getBall (other i) (checkHit i s)) = ramp (getBall (other i) s)"
    and "damageDealt (getBall (other i) (checkHit i s)) = damageDealt (getBall (other i) s)"
  using assms by (cases i; auto simp add: checkHit_def hitLands_def hitDamage_def Let_def split_def)+

lemma checkHit_events:
  assumes "hitLands i s"
  shows "events (checkHit i s) =
    events s @ Hit (tick s) (bid (getBall i s)) (bid (getBall (other i) s)) (hitDamage i s)
      # (if hp (getBall (other i) s) - hitDamage i s \<le> 0 then [Dead (tick s) (bid (getBall (other i) s))] else [])"
  using assms by (cases i) (simp_all add: checkHit_def hitLands_def hitDamage_def Let_def split_def)

lemma hitLands_alive: "hitLands i s \<Longrightarrow> alive (getBall i s) \<and> alive (getBall (other i) s)"
  by (simp add: hitLands_def Let_def)

lemma hitLands_dead: "\<not> alive (getBall i s) \<or> \<not> alive (getBall (other i) s) \<Longrightarrow> \<not> hitLands j s"
  by (cases i; cases j) (auto simp: hitLands_def Let_def)


lemma stepSim_done: "isDone s \<Longrightarrow> stepSim s = Some s"
  by (simp add: stepSim_def)

lemma stepSim_dead:
  "\<not> isDone s \<Longrightarrow> \<not> alive (stA s) \<or> \<not> alive (stB s) \<Longrightarrow> stepSim s = Some (markDead s)"
  by (auto simp add: stepSim_def)

lemma stepSim_ceiling:
  "\<not> isDone s \<Longrightarrow> alive (stA s) \<Longrightarrow> alive (stB s) \<Longrightarrow> maxTicks (sim (spec s)) \<le> tick s \<Longrightarrow>
   stepSim s = Some (s\<lparr>events := events s @ [Timeout (tick s) (fst (timeoutWinner s))],
                          rng := snd (timeoutWinner s), isDone := True,
                          winner := Some (fst (timeoutWinner s))\<rparr>)"
  by (simp add: stepSim_def split_def Let_def)

lemma stepSim_tick:
  "\<not> isDone s \<Longrightarrow> alive (stA s) \<Longrightarrow> alive (stB s) \<Longrightarrow> tick s < maxTicks (sim (spec s)) \<Longrightarrow>
   beforeHits s = Some s4 \<Longrightarrow> stepSim s = Some (endTick s4)"
  by (simp add: stepSim_def Let_def endTick_def)

lemma stepSim_total: "\<exists>s'. stepSim s = Some s'"
proof -
  obtain s4 where "beforeHits s = Some s4" using beforeHits_total by blast
  then show ?thesis by (simp add: stepSim_def Let_def split_def)
qed

lemma endTick_fields:
  "spec (endTick s) = spec s" "tick (endTick s) = tick s + 1" "SCALE (endTick s) = SCALE s"
  "isDone (endTick s) \<longleftrightarrow> isDone s \<or> \<not> alive (stA (endTick s)) \<or> \<not> alive (stB (endTick s))"
  "stA (endTick s) = stA (checkHit IdB (checkHit IdA s))"
  "stB (endTick s) = stB (checkHit IdB (checkHit IdA s))"
  "events (endTick s) = events (checkHit IdB (checkHit IdA s))"
  "rng (endTick s) = rng (checkHit IdB (checkHit IdA s))"
  by (auto simp add: endTick_def Let_def markDead_def checkHit_frame_fields)

lemma stepSim_spec: "stepSim s = Some s' \<Longrightarrow> spec s' = spec s"
proof -
  assume a: "stepSim s = Some s'"
  obtain s4 where b: "beforeHits s = Some s4" using beforeHits_total by blast
  have "spec s4 = spec s" using simFrame_eqD[OF beforeHits_frame[OF b]] by simp
  with a b show ?thesis
    by (auto simp add: stepSim_def Let_def split_def markDead_def checkHit_frame_fields split: if_splits)
qed


subsection \<open>The example descriptions, evaluated\<close>

lemma rngNext_1: "rngNext 1 = (2693262067 / 4294967296, 1831565814)"
  by (simp add: rngNext_def Let_def)

lemma initBall_exampleA:
  "initBall (exampleSpec xB dmg a b n) 1 (ballA (exampleSpec xB dmg a b n)) 0xA1B2C3D4 = Returned (stA (exampleState xB dmg a b n 0))"
  apply (simp add: initBall_def getProperty_def exampleSpec_def exampleWeapon_def mathRound_def scaleVec_def ANGLE_FULL_def exampleState_def)
  apply (simp add: mulberry32_def)
  apply (simp add: rngNext_def Let_def)
  done

lemma initBall_exampleB:
  "initBall (exampleSpec xB dmg a b n) 1 (ballB (exampleSpec xB dmg a b n)) 0xB4C3D2A1 = Returned (stB (exampleState xB dmg a b n 0))"
  apply (simp add: initBall_def getProperty_def exampleSpec_def exampleWeapon_def mathRound_def scaleVec_def ANGLE_FULL_def exampleState_def)
  apply (simp add: mulberry32_def)
  apply (simp add: rngNext_def Let_def)
  done

lemma createSim_example: "createSim (exampleSpec xB dmg a b n) = Returned (exampleState xB dmg a b n 0)"
proof -
  have sc: "scale (sim (exampleSpec xB dmg a b n)) = 1" by (simp add: exampleSpec_def)
  show ?thesis
    apply (simp add: createSim_def initBall_exampleA initBall_exampleB sc Let_def)
    apply (simp add: exampleSpec_def mathRound_def mulberry32_def exampleState_def)
    done
qed

lemma and_ffff: "0 \<le> x \<Longrightarrow> x < 65536 \<Longrightarrow> x AND 0xffff = (x::int)"
proof -
  assume a: "0 \<le> x" "x < 65536"
  have "x AND mask 16 = take_bit 16 x" by (simp add: take_bit_eq_mask)
  also have "\<dots> = x" using a by (simp add: take_bit_int_eq_self)
  finally show ?thesis by (simp add: mask_eq_exp_minus_1)
qed

lemma beforeHits_example:
  assumes "xB = 50 \<or> xB = 80" "n < 100"
  shows "beforeHits (exampleState xB dmg a b mt n) = Some ((exampleState xB dmg a b mt (Suc n))\<lparr>tick := n\<rparr>)"
  using assms
  apply (simp add: beforeHits_def exampleState_def)
  apply (simp add: updateAngle_def moveBall_def mathRound_def and_ffff)
  apply (simp add: applyWallBounce_def Let_def)
  apply (auto simp add: resolveBallBallCollision_def)
  done

lemma hitLands_example_50: "hitLands i ((exampleState 50 dmg a b mt n)\<lparr>tick := t\<rparr>)"
  by (cases i)
    (simp_all add: hitLands_def exampleState_def weaponTipScaled_def dist2_def Let_def mathRound_def TRIG_SCALE_def)

lemma hitLands_example_80: "\<not> hitLands i ((exampleState 80 dmg a b mt n)\<lparr>tick := t\<rparr>)"
  by (cases i)
    (simp_all add: hitLands_def exampleState_def weaponTipScaled_def dist2_def Let_def mathRound_def TRIG_SCALE_def)

section \<open>Rounding (C5)\<close>


lemma mathRound_tie: "mathRound (real_of_int k + 1 / 2) = k + 1"
  unfolding mathRound_def by simp



section \<open>The canonical event log (C7)\<close>


















section \<open>Body-body collision (C8)\<close>

lemma resolve_skip:
  assumes "dist2 (pos (stB s)) (pos (stA s)) = 0
     \<or> dist2 (pos (stB s)) (pos (stA s)) > (r (stA s) + r (stB s)) * (r (stA s) + r (stB s))"
  shows "resolveBallBallCollision s = Some s"
  using assms by (auto simp add: resolveBallBallCollision_def dist2_def Let_def)

lemma resolve_changed:
  assumes "resolveBallBallCollision s \<noteq> Some s"
  shows "0 < dist2 (pos (stB s)) (pos (stA s))"
proof -
  have "dist2 (pos (stB s)) (pos (stA s)) \<noteq> 0" using assms resolve_skip by blast
  then show ?thesis unfolding dist2_def Let_def by (rule sum_squares_pos)
qed

text \<open>
  C8: body-body collision resolution never divides by zero. It always returns a state;
  when the squared distance of the centres is zero or exceeds the squared sum of the
  radii it returns the state unchanged; whenever it does change the state, the squared
  distance is strictly positive, so the inverse square root and the distance
  \<open>1 / invLen\<close> are quotients with non-zero divisors. A whole \<open>stepSim\<close> call therefore
  always returns a state, also for two balls at the same position.
\<close>

theorem resolveBallBallCollision_never_divides_by_zero:
  "(\<exists>s'. resolveBallBallCollision s = Some s')
   \<and> (let d2 = dist2 (pos (stB s)) (pos (stA s)); rSum = r (stA s) + r (stB s)
      in (d2 = 0 \<or> d2 > rSum * rSum \<longrightarrow> resolveBallBallCollision s = Some s)
       \<and> (resolveBallBallCollision s \<noteq> Some s \<longrightarrow>
            0 < d2 \<and> approxInvSqrt d2 = Some (1 / sqrt (real_of_int d2))
            \<and> numDiv 1 (1 / sqrt (real_of_int d2)) = Some (sqrt (real_of_int d2))))
   \<and> (approxInvSqrt n = None \<longleftrightarrow> n \<le> 0)
   \<and> (\<exists>s'. stepSim s = Some s')"
  unfolding Let_def
  using resolve_total[of s] resolve_skip[of s] resolve_changed[of s] approxInvSqrt_None_iff[of n]
    stepSim_total[of s] approxInvSqrt_pos numDiv_inv
  by blast

lemma sqrt_9: "sqrt 9 = 3"
  using real_sqrt_abs[of 3] by simp

theorem resolveBallBallCollision_never_divides_by_zero_witness:
  "dist2 (pos (stB (exampleState 50 5 5 5 3 0))) (pos (stA (exampleState 50 5 5 5 3 0))) = 0
   \<and> resolveBallBallCollision (exampleState 50 5 5 5 3 0) = Some (exampleState 50 5 5 5 3 0)
   \<and> (\<exists>s'. stepSim (exampleState 50 5 5 5 3 0) = Some s')
   \<and> resolveBallBallCollision (exampleState 53 5 5 5 3 0) \<noteq> Some (exampleState 53 5 5 5 3 0)
   \<and> dist2 (pos (stB (exampleState 53 5 5 5 3 0))) (pos (stA (exampleState 53 5 5 5 3 0))) = 9
   \<and> approxInvSqrt 9 = Some (1 / 3)"
proof -
  have d0: "dist2 (pos (stB (exampleState 50 5 5 5 3 0))) (pos (stA (exampleState 50 5 5 5 3 0))) = 0"
    by (simp add: exampleState_def dist2_def)
  have d9: "dist2 (pos (stB (exampleState 53 5 5 5 3 0))) (pos (stA (exampleState 53 5 5 5 3 0))) = 9"
    by (simp add: exampleState_def dist2_def)
  have inv: "approxInvSqrt 9 = Some (1 / 3)"
    by (simp add: approxInvSqrt_def numDiv_def sqrt_9)
  have "events (the (resolveBallBallCollision (exampleState 53 5 5 5 3 0))) = [Collide 0 IdA IdB]"
    by (simp add: resolveBallBallCollision_def exampleState_def inv numDiv_def Let_def)
  then have ch: "resolveBallBallCollision (exampleState 53 5 5 5 3 0) \<noteq> Some (exampleState 53 5 5 5 3 0)"
    by (auto simp add: exampleState_def)
  show ?thesis
    using resolveBallBallCollision_never_divides_by_zero[of "exampleState 50 5 5 5 3 0" 9]
      resolveBallBallCollision_never_divides_by_zero[of "exampleState 53 5 5 5 3 0" 9]
      d0 d9 ch inv
    by (simp add: Let_def)
qed

section \<open>Construction (C9)\<close>

lemma initBall_Threw_iff:
  "(\<exists>e. initBall sp sc b j = Threw e) \<longleftrightarrow> getProperty (weapons sp) (b_weaponId b) = Undefined"
  by (cases "getProperty (weapons sp) (b_weaponId b)") (simp_all add: initBall_def Let_def split_def)

lemma initBall_Returned_iff:
  "(\<exists>st. initBall sp sc b j = Returned st) \<longleftrightarrow> b_weaponId b \<in> dom (weapons sp)"
  by (cases "weapons sp (b_weaponId b)")
    (auto simp add: initBall_def getProperty_def Let_def split_def)

lemma initBall_fresh:
  assumes "initBall sp sc b j = Returned st"
  shows "alive st \<and> hp st = b_hp b \<and> hitCount st = 0 \<and> damageDealt st = 0 \<and> bid st = b_id b
    \<and> (\<exists>w. weapons sp (b_weaponId b) = Some w \<and> baseDamage st = w_baseDamage w \<and> ramp st = w_ramp w)"
  using assms
  by (cases "weapons sp (b_weaponId b)")
    (auto simp add: initBall_def getProperty_def Let_def split_def split: if_splits)

lemma createSim_Threw_iff:
  "(\<exists>e. createSim sp = Threw e) \<longleftrightarrow>
     getProperty (weapons sp) (b_weaponId (ballA sp)) = Undefined
     \<or> getProperty (weapons sp) (b_weaponId (ballB sp)) = Undefined"
proof -
  let ?a = "initBall sp (scale (sim sp)) (ballA sp) 0xA1B2C3D4"
  let ?b = "initBall sp (scale (sim sp)) (ballB sp) 0xB4C3D2A1"
  have "(\<exists>e. createSim sp = Threw e) \<longleftrightarrow> (\<exists>e. ?a = Threw e) \<or> (\<exists>e. ?b = Threw e)"
    by (cases ?a; cases ?b) (simp_all add: createSim_def Let_def)
  then show ?thesis by (simp only: initBall_Threw_iff)
qed

lemma createSim_Returned:
  assumes "createSim sp = Returned s0"
  shows "\<exists>a b. initBall sp (scale (sim sp)) (ballA sp) 0xA1B2C3D4 = Returned a
     \<and> initBall sp (scale (sim sp)) (ballB sp) 0xB4C3D2A1 = Returned b
     \<and> stA s0 = a \<and> stB s0 = b \<and> spec s0 = sp \<and> tick s0 = 0 \<and> events s0 = []
     \<and> \<not> isDone s0 \<and> winner s0 = None \<and> SCALE s0 = scale (sim sp)"
proof -
  let ?a = "initBall sp (scale (sim sp)) (ballA sp) 0xA1B2C3D4"
  let ?b = "initBall sp (scale (sim sp)) (ballB sp) 0xB4C3D2A1"
  show ?thesis using assms
    by (cases ?a; cases ?b) (auto simp add: createSim_def Let_def)
qed


text \<open>
  C9: the claim holds for identifiers that are not names of members of
  \<open>Object.prototype\<close>; for those the code misses the throw. With ball A's weapon
  identifier \<open>constructor\<close>, which the weapon mapping does not hold, the read
  \<open>spec.weapons[b.weaponId]\<close> finds the inherited member, \<open>!weapon\<close> is false and
  \<open>createSim\<close> returns a state whose weapon fields are \<open>undefined\<close> or \<open>NaN\<close>; with
  the identifier \<open>axe\<close> it throws as the claim says.
\<close>

theorem createSim_inherited_weaponId_not_thrown:
  "weapons (withWeaponIdA ''constructor'' (exampleSpec 80 5 10 10 3)) ''constructor'' = None
   \<and> createSim (withWeaponIdA ''constructor'' (exampleSpec 80 5 10 10 3)) = ReturnedNaN
   \<and> weapons (withWeaponIdA ''axe'' (exampleSpec 80 5 10 10 3)) ''axe'' = None
   \<and> createSim (withWeaponIdA ''axe'' (exampleSpec 80 5 10 10 3)) = Threw (Error ''Unknown weaponId: axe'')"
proof -
  let ?c = "withWeaponIdA ''constructor'' (exampleSpec 80 5 10 10 3)"
  let ?x = "withWeaponIdA ''axe'' (exampleSpec 80 5 10 10 3)"
  have w: "weapons ?c ''constructor'' = None" "weapons ?x ''axe'' = None"
    by (simp_all add: withWeaponIdA_def exampleSpec_def)
  have a1: "initBall ?c 1 (ballA ?c) 0xA1B2C3D4 = ReturnedNaN"
    by (simp add: initBall_def getProperty_def objectPrototypeKeys_def withWeaponIdA_def exampleSpec_def)
  have b1: "\<exists>st. initBall ?c 1 (ballB ?c) 0xB4C3D2A1 = Returned st"
    by (simp add: initBall_Returned_iff) (simp add: withWeaponIdA_def exampleSpec_def)
  have sc: "scale (sim ?c) = 1" "scale (sim ?x) = 1"
    by (simp_all add: withWeaponIdA_def exampleSpec_def)
  have c: "createSim ?c = ReturnedNaN"
    using b1 by (auto simp add: createSim_def Let_def sc a1)
  have a2: "initBall ?x 1 (ballA ?x) 0xA1B2C3D4 = Threw (Error ''Unknown weaponId: axe'')"
    by (simp add: initBall_def getProperty_def objectPrototypeKeys_def withWeaponIdA_def exampleSpec_def)
  have x: "createSim ?x = Threw (Error ''Unknown weaponId: axe'')"
    by (simp add: createSim_def Let_def sc a2)
  show ?thesis using w c x by simp
qed

section \<open>Runs from a fresh state (C4)\<close>

lemma stepSim_cases:
  assumes "stepSim s = Some s'"
  obtains (fin) "isDone s" "s' = s"
  | (dead) "\<not> isDone s" "\<not> alive (stA s) \<or> \<not> alive (stB s)" "s' = markDead s"
  | (ceiling) "\<not> isDone s" "alive (stA s)" "alive (stB s)" "maxTicks (sim (spec s)) \<le> tick s"
      "s' = s\<lparr>events := events s @ [Timeout (tick s) (fst (timeoutWinner s))],
               rng := snd (timeoutWinner s), isDone := True,
               winner := Some (fst (timeoutWinner s))\<rparr>"
  | (ticked) s4 where "\<not> isDone s" "alive (stA s)" "alive (stB s)" "tick s < maxTicks (sim (spec s))"
      "beforeHits s = Some s4" "s' = endTick s4"
proof (cases "isDone s")
  case True
  moreover have "s' = s" using assms True by (simp add: stepSim_done)
  ultimately show ?thesis by (rule fin)
next
  case nd: False
  show ?thesis
  proof (cases "alive (stA s) \<and> alive (stB s)")
    case False
    then have d: "\<not> alive (stA s) \<or> \<not> alive (stB s)" by simp
    have "s' = markDead s" using assms stepSim_dead[OF nd d] by simp
    with nd d show ?thesis by (rule dead)
  next
    case True
    then have al: "alive (stA s)" "alive (stB s)" by simp_all
    show ?thesis
    proof (cases "maxTicks (sim (spec s)) \<le> tick s")
      case True
      have "s' = s\<lparr>events := events s @ [Timeout (tick s) (fst (timeoutWinner s))],
               rng := snd (timeoutWinner s), isDone := True,
               winner := Some (fst (timeoutWinner s))\<rparr>"
        using assms stepSim_ceiling[OF nd al True] by simp
      with nd al True show ?thesis by (rule ceiling)
    next
      case False
      then have lt: "tick s < maxTicks (sim (spec s))" by simp
      obtain s4 where b: "beforeHits s = Some s4" using beforeHits_total by blast
      have "s' = endTick s4"
        using assms stepSim_tick[OF nd al lt b] by simp
      with nd al lt b show ?thesis by (rule ticked)
    qed
  qed
qed

lemma beforeHits_fields:
  assumes "beforeHits s = Some s4"
  shows "spec s4 = spec s" "tick s4 = tick s" "isDone s4 = isDone s" "winner s4 = winner s"
    "rng s4 = rng s" "SCALE s4 = SCALE s"
    "ballFrame (stA s4) = ballFrame (stA s)" "ballFrame (stB s4) = ballFrame (stB s)"
  using simFrame_eqD[OF beforeHits_frame[OF assms]] by simp_all

lemma beforeHits_ball:
  assumes "beforeHits s = Some s4"
  shows "ballFrame (getBall i s4) = ballFrame (getBall i s)"
  using beforeHits_fields[OF assms] by (cases i) simp_all

lemma stepSim_progress:
  assumes "\<not> isDone s" "alive (stA s)" "alive (stB s)" "tick s \<le> maxTicks (sim (spec s))"
    and "stepSim s = Some s'"
  shows "spec s' = spec s \<and> tick s' \<le> maxTicks (sim (spec s))
    \<and> (isDone s' \<or> (alive (stA s') \<and> alive (stB s') \<and> tick s' = tick s + 1))
    \<and> (isDone s' \<longrightarrow> (\<exists>w. winner s' = Some w))"
  using assms(5)
proof (cases rule: stepSim_cases)
  case fin
  then show ?thesis using assms by simp
next
  case dead
  then show ?thesis using assms by simp
next
  case ceiling
  then show ?thesis using assms by simp
next
  case (ticked s4)
  have "isDone (endTick s4) \<longrightarrow> (\<exists>w. winner (endTick s4) = Some w)"
    using beforeHits_fields[OF ticked(5)] ticked(1)
    by (auto simp add: endTick_def Let_def markDead_def checkHit_frame_fields)
  then show ?thesis
    using ticked beforeHits_fields[OF ticked(5)] endTick_fields[of s4] by auto
qed

lemma stepN_total: "\<exists>s. stepN n s0 = Some s"
proof (induction n)
  case 0
  show ?case by simp
next
  case (Suc n)
  then obtain s where "stepN n s0 = Some s" by blast
  then show ?case using stepSim_total[of s] by simp
qed

lemma stepN_SucD:
  assumes "stepN (Suc n) s0 = Some s'"
  obtains s where "stepN n s0 = Some s" "stepSim s = Some s'"
  using assms by (auto simp add: bind_eq_Some_conv)

lemma stepN_invariant:
  assumes "stepN n s0 = Some s" "P s0" "\<And>s s'. P s \<Longrightarrow> stepSim s = Some s' \<Longrightarrow> P s'"
  shows "P s"
  using assms(1)
proof (induction n arbitrary: s)
  case 0
  then show ?case using assms(2) by simp
next
  case (Suc n)
  from Suc.prems obtain s1 where s1: "stepN n s0 = Some s1" "stepSim s1 = Some s"
    by (rule stepN_SucD)
  show ?case using assms(3)[OF Suc.IH[OF s1(1)] s1(2)] .
qed

lemma run_counts_ticks:
  assumes "createSim sp = Returned s0" "stepN n s0 = Some s"
  shows "spec s = sp \<and> tick s \<le> maxTicks (sim sp)
    \<and> (isDone s \<or> (alive (stA s) \<and> alive (stB s) \<and> tick s = n))
    \<and> (isDone s \<longrightarrow> (\<exists>w. winner s = Some w))"
  using assms(2)
proof (induction n arbitrary: s)
  case 0
  obtain a b where ab: "initBall sp (scale (sim sp)) (ballA sp) 0xA1B2C3D4 = Returned a"
    "initBall sp (scale (sim sp)) (ballB sp) 0xB4C3D2A1 = Returned b"
    "stA s0 = a" "stB s0 = b" "spec s0 = sp" "tick s0 = 0" "\<not> isDone s0"
    using createSim_Returned[OF assms(1)] by blast
  then show ?case using 0 initBall_fresh[OF ab(1)] initBall_fresh[OF ab(2)] by simp
next
  case (Suc n)
  from Suc.prems obtain s1 where s1: "stepN n s0 = Some s1" "stepSim s1 = Some s"
    by (rule stepN_SucD)
  note ih = Suc.IH[OF s1(1)]
  show ?case
  proof (cases "isDone s1")
    case True
    then have "s = s1" using s1(2) by (simp add: stepSim_done)
    then show ?thesis using ih True by simp
  next
    case False
    then show ?thesis using ih stepSim_progress[OF False _ _ _ s1(2)] by auto
  qed
qed

text \<open>
  C4: from a fresh state, after any number of \<open>stepSim\<close> calls the tick counter is at most
  \<open>maxTicks\<close>, and after \<open>maxTicks + 1\<close> calls the match is finished.
\<close>

theorem tick_never_exceeds_maxTicks:
  assumes "createSim sp = Returned s0"
  shows "(\<forall>n. \<exists>s. stepN n s0 = Some s \<and> tick s \<le> maxTicks (sim sp))
    \<and> (\<exists>s. stepN (maxTicks (sim sp) + 1) s0 = Some s \<and> isDone s \<and> tick s \<le> maxTicks (sim sp))"
proof -
  have a: "\<exists>s. stepN n s0 = Some s \<and> tick s \<le> maxTicks (sim sp)" for n
    using stepN_total[of n s0] run_counts_ticks[OF assms] by blast
  obtain s where s: "stepN (maxTicks (sim sp) + 1) s0 = Some s"
    using stepN_total by blast
  have "isDone s \<and> tick s \<le> maxTicks (sim sp)" using run_counts_ticks[OF assms s] by auto
  with s a show ?thesis by blast
qed


lemma stepSim_example_apart:
  assumes "n < mt" "n < 100"
  shows "stepSim (exampleState 80 dmg a b mt n) = Some (exampleState 80 dmg a b mt (Suc n))"
proof -
  let ?s4 = "(exampleState 80 dmg a b mt (Suc n))\<lparr>tick := n\<rparr>"
  have b: "beforeHits (exampleState 80 dmg a b mt n) = Some ?s4"
    using assms by (simp add: beforeHits_example)
  have "stepSim (exampleState 80 dmg a b mt n) = Some (endTick ?s4)"
    using assms(1) by (intro stepSim_tick b) (simp_all add: exampleState_def exampleSpec_def)
  moreover have "endTick ?s4 = exampleState 80 dmg a b mt (Suc n)"
    by (simp add: endTick_def checkHit_miss hitLands_example_80) (simp add: exampleState_def)
  ultimately show ?thesis by simp
qed

lemma stepN_example_apart:
  assumes "k \<le> mt" "k \<le> 100"
  shows "stepN k (exampleState 80 dmg a b mt 0) = Some (exampleState 80 dmg a b mt k)"
  using assms by (induction k) (simp_all add: stepSim_example_apart)

lemma timeoutWinner_example:
  "a \<noteq> b \<Longrightarrow> timeoutWinner (exampleState xB dmg a b mt n) = (if a > b then IdA else IdB, 1)"
  "timeoutWinner (exampleState xB dmg a a mt n) = (IdB, 1831565814)"
  by (simp_all add: timeoutWinner_def exampleState_def rngNext_1)

lemma stepSim_example_ceiling:
  "stepSim (exampleState xB dmg a b mt mt) =
     Some ((exampleState xB dmg a b mt mt)
       \<lparr>events := [Timeout mt (fst (timeoutWinner (exampleState xB dmg a b mt mt)))],
        rng := snd (timeoutWinner (exampleState xB dmg a b mt mt)), isDone := True,
        winner := Some (fst (timeoutWinner (exampleState xB dmg a b mt mt)))\<rparr>)"
proof -
  have "stepSim (exampleState xB dmg a b mt mt) =
     Some ((exampleState xB dmg a b mt mt)
       \<lparr>events := events (exampleState xB dmg a b mt mt) @ [Timeout (tick (exampleState xB dmg a b mt mt)) (fst (timeoutWinner (exampleState xB dmg a b mt mt)))],
        rng := snd (timeoutWinner (exampleState xB dmg a b mt mt)), isDone := True,
        winner := Some (fst (timeoutWinner (exampleState xB dmg a b mt mt)))\<rparr>)"
    by (rule stepSim_ceiling) (simp_all add: exampleState_def exampleSpec_def)
  then show ?thesis by (simp add: exampleState_def)
qed

theorem tick_never_exceeds_maxTicks_witness:
  "createSim (exampleSpec 80 5 10 5 2) = Returned (exampleState 80 5 10 5 2 0)
   \<and> (\<forall>n. \<exists>s. stepN n (exampleState 80 5 10 5 2 0) = Some s \<and> tick s \<le> 2)
   \<and> (\<exists>s. stepN 3 (exampleState 80 5 10 5 2 0) = Some s \<and> isDone s \<and> tick s \<le> 2)
   \<and> stepN 2 (exampleState 80 5 10 5 2 0) = Some (exampleState 80 5 10 5 2 2)
   \<and> stepN 3 (exampleState 80 5 10 5 2 0)
       = Some ((exampleState 80 5 10 5 2 2)\<lparr>events := [Timeout 2 IdA], rng := 1, isDone := True, winner := Some IdA\<rparr>)"
proof -
  have m: "maxTicks (sim (exampleSpec 80 5 10 5 2)) = 2" by (simp add: exampleSpec_def)
  have s2: "stepN 2 (exampleState 80 5 10 5 2 0) = Some (exampleState 80 5 10 5 2 2)"
    by (rule stepN_example_apart) simp_all
  have "stepN (Suc 2) (exampleState 80 5 10 5 2 0)
       = Some ((exampleState 80 5 10 5 2 2)\<lparr>events := [Timeout 2 IdA], rng := 1, isDone := True, winner := Some IdA\<rparr>)"
    unfolding stepN.simps s2 by (simp add: stepSim_example_ceiling timeoutWinner_example)
  then have s3: "stepN 3 (exampleState 80 5 10 5 2 0)
       = Some ((exampleState 80 5 10 5 2 2)\<lparr>events := [Timeout 2 IdA], rng := 1, isDone := True, winner := Some IdA\<rparr>)"
    by (simp add: numeral_3_eq_3)
  show ?thesis
    using tick_never_exceeds_maxTicks[OF createSim_example[of 80 5 10 5 2]] s2 s3
    by (simp add: m createSim_example)
qed

section \<open>Timeout resolution (C2)\<close>

text \<open>
  C2: when \<open>stepSim\<close> is called on a running match (a not-finished state of a run from a
  fresh state) whose tick counter has reached \<open>maxTicks\<close>, the winner is the ball with
  strictly higher health; with equal health, the ball with strictly higher damage dealt;
  with both equal, one value is drawn from the shared generator and A wins exactly when
  it is below 0.5. A \<open>timeout\<close> event with that winner is appended and the match is
  finished; nothing else changes.
\<close>

theorem timeout_ladder:
  assumes "createSim sp = Returned s0" "stepN n s0 = Some s" "\<not> isDone s"
    and "maxTicks (sim (spec s)) \<le> tick s"
  shows "let A = stA s; B = stB s;
             w = (if hp A > hp B then IdA
                  else if hp B > hp A then IdB
                  else if damageDealt A > damageDealt B then IdA
                  else if damageDealt B > damageDealt A then IdB
                  else if fst (rngNext (rng s)) < 1 / 2 then IdA else IdB);
             g = (if hp A = hp B \<and> damageDealt A = damageDealt B
                  then snd (rngNext (rng s)) else rng s)
         in stepSim s = Some (s\<lparr>events := events s @ [Timeout (tick s) w], rng := g,
                                isDone := True, winner := Some w\<rparr>)"
proof -
  have al: "alive (stA s)" "alive (stB s)"
    using run_counts_ticks[OF assms(1,2)] assms(3) by simp_all
  have w: "fst (timeoutWinner s) =
      (if hp (stA s) > hp (stB s) then IdA
       else if hp (stB s) > hp (stA s) then IdB
       else if damageDealt (stA s) > damageDealt (stB s) then IdA
       else if damageDealt (stB s) > damageDealt (stA s) then IdB
       else if fst (rngNext (rng s)) < 1 / 2 then IdA else IdB)"
    by (auto simp add: timeoutWinner_def Let_def split_def)
  have g: "snd (timeoutWinner s) =
      (if hp (stA s) = hp (stB s) \<and> damageDealt (stA s) = damageDealt (stB s)
       then snd (rngNext (rng s)) else rng s)"
    by (auto simp add: timeoutWinner_def Let_def split_def)
  show ?thesis
    unfolding Let_def using stepSim_ceiling[OF assms(3) al assms(4)] by (simp only: w g)
qed

theorem timeout_ladder_witness:
  "createSim (exampleSpec 80 5 10 5 0) = Returned (exampleState 80 5 10 5 0 0)
   \<and> stepN 0 (exampleState 80 5 10 5 0 0) = Some (exampleState 80 5 10 5 0 0)
   \<and> \<not> isDone (exampleState 80 5 10 5 0 0)
   \<and> maxTicks (sim (spec (exampleState 80 5 10 5 0 0))) \<le> tick (exampleState 80 5 10 5 0 0)
   \<and> stepSim (exampleState 80 5 10 5 0 0)
       = Some ((exampleState 80 5 10 5 0 0)\<lparr>events := [Timeout 0 IdA], rng := 1, isDone := True, winner := Some IdA\<rparr>)
   \<and> createSim (exampleSpec 80 5 7 7 0) = Returned (exampleState 80 5 7 7 0 0)
   \<and> fst (rngNext (rng (exampleState 80 5 7 7 0 0))) = 2693262067 / 4294967296
   \<and> stepSim (exampleState 80 5 7 7 0 0)
       = Some ((exampleState 80 5 7 7 0 0)\<lparr>events := [Timeout 0 IdB], rng := 1831565814, isDone := True, winner := Some IdB\<rparr>)"
proof -
  have f: "hp (stA (exampleState xB dmg a b mt n)) = a" "hp (stB (exampleState xB dmg a b mt n)) = b"
    "damageDealt (stA (exampleState xB dmg a b mt n)) = 0" "damageDealt (stB (exampleState xB dmg a b mt n)) = 0"
    "rng (exampleState xB dmg a b mt n) = 1" "events (exampleState xB dmg a b mt n) = []"
    "tick (exampleState xB dmg a b mt n) = n" "\<not> isDone (exampleState xB dmg a b mt n)"
    "maxTicks (sim (spec (exampleState xB dmg a b mt n))) = mt"
    for xB dmg a b mt n
    by (simp_all add: exampleState_def exampleSpec_def)
  have s: "stepN 0 (exampleState xB dmg a b mt n) = Some (exampleState xB dmg a b mt n)" for xB dmg a b mt n
    by simp
  show ?thesis
    using timeout_ladder[OF createSim_example[of 80 5 10 5 0] s]
      timeout_ladder[OF createSim_example[of 80 5 7 7 0] s]
    by (simp add: Let_def f createSim_example rngNext_1)
qed

section \<open>Full runs (C1)\<close>







section \<open>Death within the tick (C3)\<close>

lemma checkHit_attacker_alive:
  "alive (getBall i (checkHit i s)) = alive (getBall i s)"
proof (cases "hitLands i s")
  case True
  then show ?thesis by (simp add: checkHit_attacker)
next
  case False
  then show ?thesis by (simp add: checkHit_miss)
qed

lemma markDead_fields:
  "isDone (markDead s)" "winner (markDead s) = Some (if alive (stA s) then IdA else IdB)"
  "tick (markDead s) = tick s" "events (markDead s) = events s" "stA (markDead s) = stA s"
  "stB (markDead s) = stB s" "spec (markDead s) = spec s" "rng (markDead s) = rng s"
  by (simp_all add: markDead_def)

lemma getBall_markDead: "getBall i (markDead s) = getBall i s"
  by (cases i) (simp_all add: markDead_def)

lemma getBall_tick_update: "getBall i (s\<lparr>tick := t\<rparr>) = getBall i s"
  by (cases i) simp_all

lemma endTick_dead:
  assumes "\<not> alive (getBall (other i) (checkHit IdB (checkHit IdA s4)))"
    and "alive (getBall i (checkHit IdB (checkHit IdA s4)))"
  shows "endTick s4 = markDead ((checkHit IdB (checkHit IdA s4))\<lparr>tick := tick s4 + 1\<rparr>)"
    and "winner (endTick s4) = Some i" and "isDone (endTick s4)"
  using assms by (cases i; simp add: endTick_def Let_def markDead_def checkHit_frame_fields)+

text \<open>
  C3: when, in the tick simulated by a \<open>stepSim\<close> call, the hit check of attacker \<open>i\<close>
  lands and takes the victim's health to 0 or below, that check appends the \<open>hit\<close> event
  and the \<open>dead\<close> event right after it and clears the victim's alive flag; if \<open>i\<close> is A,
  the check of B that follows changes nothing. The same call returns the match finished
  with \<open>i\<close> as winner and the tick counter advanced by one, and a further \<open>stepSim\<close> call
  changes nothing. (\<open>s4\<close> is the state after steps 1 to 4, \<open>s5\<close> the state at which the
  check of \<open>i\<close> runs.)
\<close>

theorem lethal_hit_finishes_match:
  assumes "\<not> isDone s" "alive (stA s)" "alive (stB s)" "tick s < maxTicks (sim (spec s))"
    and "beforeHits s = Some s4"
    and "s5 = (if i = IdA then s4 else checkHit IdA s4)"
    and "hitLands i s5"
    and "hp (getBall (other i) s5) - hitDamage i s5 \<le> 0"
  shows "\<exists>s'. stepSim s = Some s'
     \<and> events (checkHit i s5) =
         events s5 @ [Hit (tick s) (bid (getBall i s5)) (bid (getBall (other i) s5)) (hitDamage i s5),
                      Dead (tick s) (bid (getBall (other i) s5))]
     \<and> \<not> alive (getBall (other i) (checkHit i s5))
     \<and> (i = IdA \<longrightarrow> checkHit IdB (checkHit IdA s4) = checkHit IdA s4)
     \<and> events s' = events (checkHit i s5)
     \<and> \<not> alive (getBall (other i) s') \<and> alive (getBall i s')
     \<and> hp (getBall (other i) s') = hp (getBall (other i) s5) - hitDamage i s5
     \<and> isDone s' \<and> winner s' = Some i \<and> tick s' = tick s + 1
     \<and> stepSim s' = Some s'"
proof -
  let ?s6 = "checkHit IdB (checkHit IdA s4)"
  have t5: "tick s5 = tick s"
    using assms(6) beforeHits_fields(2)[OF assms(5)] by (simp add: checkHit_frame_fields)
  have ev: "events (checkHit i s5) =
         events s5 @ [Hit (tick s) (bid (getBall i s5)) (bid (getBall (other i) s5)) (hitDamage i s5),
                      Dead (tick s) (bid (getBall (other i) s5))]"
    using checkHit_events[OF assms(7)] assms(8) t5 by simp
  have dead: "\<not> alive (getBall (other i) (checkHit i s5))"
    using checkHit_victim(2)[OF assms(7)] assms(8) by simp
  have hpv: "hp (getBall (other i) (checkHit i s5)) = hp (getBall (other i) s5) - hitDamage i s5"
    using checkHit_victim(1)[OF assms(7)] .
  have att: "alive (getBall i (checkHit i s5))"
    using checkHit_attacker_alive[of i s5] hitLands_alive[OF assms(7)] by simp
  have second: "i = IdA \<Longrightarrow> checkHit IdB (checkHit IdA s4) = checkHit IdA s4"
  proof -
    assume a: "i = IdA"
    then have "\<not> alive (getBall IdB (checkHit IdA s4))" using dead assms(6) by simp
    then have "\<not> hitLands IdB (checkHit IdA s4)" using hitLands_dead[of IdB] by blast
    then show ?thesis by (rule checkHit_miss)
  qed
  have s6: "?s6 = checkHit i s5"
  proof (cases i)
    case IdA
    then show ?thesis using second assms(6) by simp
  next
    case IdB
    then show ?thesis using assms(6) by simp
  qed
  have d6: "\<not> alive (getBall (other i) ?s6)" "alive (getBall i ?s6)"
    using dead att s6 by simp_all
  note e = endTick_dead[OF d6]
  have step: "stepSim s = Some (endTick s4)"
    using stepSim_tick[OF assms(1-5)] .
  have t4: "tick s4 = tick s" using beforeHits_fields(2)[OF assms(5)] .
  have "events (endTick s4) = events (checkHit i s5)"
    "\<not> alive (getBall (other i) (endTick s4))" "alive (getBall i (endTick s4))"
    "hp (getBall (other i) (endTick s4)) = hp (getBall (other i) s5) - hitDamage i s5"
    "tick (endTick s4) = tick s + 1"
    using d6 hpv s6 t4
    by (simp_all add: e(1) markDead_fields getBall_markDead getBall_tick_update checkHit_frame_fields)
  moreover have "stepSim (endTick s4) = Some (endTick s4)"
    using e(3) by (rule stepSim_done)
  ultimately show ?thesis using step ev dead second e(2,3) by simp
qed


lemma exampleState_sel:
  "hp (stA (exampleState xB dmg a b mt n)) = a" "hp (stB (exampleState xB dmg a b mt n)) = b"
  "bid (stA (exampleState xB dmg a b mt n)) = IdA" "bid (stB (exampleState xB dmg a b mt n)) = IdB"
  "alive (stA (exampleState xB dmg a b mt n))" "alive (stB (exampleState xB dmg a b mt n))"
  "baseDamage (stA (exampleState xB dmg a b mt n)) = dmg" "baseDamage (stB (exampleState xB dmg a b mt n)) = dmg"
  "ramp (stA (exampleState xB dmg a b mt n)) = 1" "ramp (stB (exampleState xB dmg a b mt n)) = 1"
  "hitCount (stA (exampleState xB dmg a b mt n)) = 0" "hitCount (stB (exampleState xB dmg a b mt n)) = 0"
  "damageDealt (stA (exampleState xB dmg a b mt n)) = 0" "damageDealt (stB (exampleState xB dmg a b mt n)) = 0"
  "events (exampleState xB dmg a b mt n) = []" "tick (exampleState xB dmg a b mt n) = n"
  "rng (exampleState xB dmg a b mt n) = 1" "\<not> isDone (exampleState xB dmg a b mt n)"
  "winner (exampleState xB dmg a b mt n) = None"
  "spec (exampleState xB dmg a b mt n) = exampleSpec xB dmg a b mt"
  "maxTicks (sim (exampleSpec xB dmg a b mt)) = mt"
  by (simp_all add: exampleState_def exampleSpec_def)

theorem lethal_hit_finishes_match_witness:
  "beforeHits (exampleState 50 5 5 5 3 0) = Some ((exampleState 50 5 5 5 3 (Suc 0))\<lparr>tick := 0\<rparr>)
   \<and> hitLands IdA ((exampleState 50 5 5 5 3 (Suc 0))\<lparr>tick := 0\<rparr>)
   \<and> hp (stB ((exampleState 50 5 5 5 3 (Suc 0))\<lparr>tick := 0\<rparr>)) - hitDamage IdA ((exampleState 50 5 5 5 3 (Suc 0))\<lparr>tick := 0\<rparr>) = 0
   \<and> map_option events (stepSim (exampleState 50 5 5 5 3 0)) = Some [Hit 0 IdA IdB 5, Dead 0 IdB]
   \<and> map_option winner (stepSim (exampleState 50 5 5 5 3 0)) = Some (Some IdA)
   \<and> map_option isDone (stepSim (exampleState 50 5 5 5 3 0)) = Some True
   \<and> map_option tick (stepSim (exampleState 50 5 5 5 3 0)) = Some (Suc 0)
   \<and> hitLands IdB (checkHit IdA ((exampleState 50 5 5 10 3 (Suc 0))\<lparr>tick := 0\<rparr>))
   \<and> map_option events (stepSim (exampleState 50 5 5 10 3 0))
       = Some [Hit 0 IdA IdB 5, Hit 0 IdB IdA 5, Dead 0 IdA]
   \<and> map_option winner (stepSim (exampleState 50 5 5 10 3 0)) = Some (Some IdB)"
proof -
  let ?s = "exampleState 50 5 5 5 3 0"
  let ?s4 = "(exampleState 50 5 5 5 3 (Suc 0))\<lparr>tick := 0\<rparr>"
  let ?t = "exampleState 50 5 5 10 3 0"
  let ?t4 = "(exampleState 50 5 5 10 3 (Suc 0))\<lparr>tick := 0\<rparr>"
  let ?t5 = "checkHit IdA ?t4"
  have run: "\<not> isDone (exampleState 50 5 a b 3 0)" "alive (stA (exampleState 50 5 a b 3 0))"
    "alive (stB (exampleState 50 5 a b 3 0))"
    "tick (exampleState 50 5 a b 3 0) < maxTicks (sim (spec (exampleState 50 5 a b 3 0)))"
    "tick (exampleState 50 5 a b 3 0) = 0" for a b
    by (simp_all add: exampleState_def exampleSpec_def)
  have b: "beforeHits (exampleState 50 5 a b 3 0) = Some ((exampleState 50 5 a b 3 (Suc 0))\<lparr>tick := 0\<rparr>)" for a b
    using beforeHits_example[of 50 0 5 a b 3] by simp
  have hA: "hitLands IdA ((exampleState 50 5 a b 3 (Suc 0))\<lparr>tick := 0\<rparr>)" for a b
    by (rule hitLands_example_50)
  have dA: "hitDamage IdA ((exampleState 50 5 a b 3 (Suc 0))\<lparr>tick := 0\<rparr>) = 5" for a b
    by (simp add: hitDamage_def exampleState_def)
  have f4: "hp (stB ?s4) = 5" "bid (stA ?s4) = IdA" "bid (stB ?s4) = IdB" "events ?s4 = []"
    by (simp_all add: exampleState_def)
  have t5: "hp (stA ?t5) = 5" "hp (stB ?t5) = 5" "bid (stA ?t5) = IdA" "bid (stB ?t5) = IdB"
    "events ?t5 = [Hit 0 IdA IdB 5]" "alive (stA ?t5)" "alive (stB ?t5)"
    "pos (stA ?t5) = \<lparr>vec_x = 50, vec_y = 50\<rparr>" "pos (stB ?t5) = \<lparr>vec_x = 50, vec_y = 50\<rparr>"
    "weaponReach (stB ?t5) = 0" "tipR (stB ?t5) = 1" "r (stA ?t5) = 2"
    "baseDamage (stB ?t5) = 5" "ramp (stB ?t5) = 1" "hitCount (stB ?t5) = 0"
    using checkHit_victim[OF hA[of 5 10]] checkHit_events[OF hA[of 5 10]] checkHit_attacker[OF hA[of 5 10]]
    by (simp_all add: dA) (simp_all add: checkHit_def weaponTipScaled_def dist2_def exampleState_def Let_def split_def
         mathRound_def TRIG_SCALE_def)
  have hB: "hitLands IdB ?t5"
    by (simp add: hitLands_def Let_def weaponTipScaled_def dist2_def t5 mathRound_def TRIG_SCALE_def)
  have dB: "hitDamage IdB ?t5 = 5"
    by (simp add: hitDamage_def t5)
  have one: "\<exists>s'. stepSim ?s = Some s' \<and> events s' = [Hit 0 IdA IdB 5, Dead 0 IdB]
      \<and> winner s' = Some IdA \<and> isDone s' \<and> tick s' = Suc 0"
    using lethal_hit_finishes_match[OF run(1-4)[of 5 5] b[of 5 5], where ?s5.0 = "?s4" and i = IdA] hA[of 5 5]
    by (simp add: dA exampleState_sel checkHit_events[OF hA[of 5 5]]) blast
  have two: "\<exists>s'. stepSim ?t = Some s' \<and> events s' = [Hit 0 IdA IdB 5, Hit 0 IdB IdA 5, Dead 0 IdA]
      \<and> winner s' = Some IdB"
    using lethal_hit_finishes_match[OF run(1-4)[of 5 10] b[of 5 10], where ?s5.0 = "?t5" and i = IdB] hB
    by (simp add: dB t5 exampleState_sel checkHit_events[OF hB] checkHit_frame_fields) blast
  show ?thesis using one two b[of 5 5] hA[of 5 5] hB by (auto simp add: dA exampleState_sel)
qed

section \<open>Health (C6)\<close>

lemma checkHit_events_if:
  "events (checkHit i s) = events s @
     (if hitLands i s
      then Hit (tick s) (bid (getBall i s)) (bid (getBall (other i) s)) (hitDamage i s)
           # (if hp (getBall (other i) s) - hitDamage i s \<le> 0
              then [Dead (tick s) (bid (getBall (other i) s))] else [])
      else [])"
  by (cases "hitLands i s") (simp_all add: checkHit_events checkHit_miss)

lemma checkHit_attacker_fields:
  "hp (getBall i (checkHit i s)) = hp (getBall i s)"
  "bid (getBall i (checkHit i s)) = bid (getBall i s)"
  "baseDamage (getBall i (checkHit i s)) = baseDamage (getBall i s)"
  "ramp (getBall i (checkHit i s)) = ramp (getBall i s)"
  "hitCount (getBall i (checkHit i s)) = hitCount (getBall i s) + (if hitLands i s then 1 else 0)"
  by (cases "hitLands i s"; simp add: checkHit_attacker checkHit_miss)+

lemma checkHit_victim_fields:
  "hp (getBall (other i) (checkHit i s)) = hp (getBall (other i) s) - (if hitLands i s then hitDamage i s else 0)"
  "bid (getBall (other i) (checkHit i s)) = bid (getBall (other i) s)"
  "baseDamage (getBall (other i) (checkHit i s)) = baseDamage (getBall (other i) s)"
  "ramp (getBall (other i) (checkHit i s)) = ramp (getBall (other i) s)"
  "hitCount (getBall (other i) (checkHit i s)) = hitCount (getBall (other i) s)"
  by (cases "hitLands i s"; simp add: checkHit_victim checkHit_miss)+

lemma ballFrame_sel:
  assumes "ballFrame b' = ballFrame b"
  shows "bid b' = bid b" "hp b' = hp b" "baseDamage b' = baseDamage b" "ramp b' = ramp b"
    "hitCount b' = hitCount b" "alive b' = alive b" "damageDealt b' = damageDealt b"
  using ballFrame_eqD[OF assms] by simp_all

text \<open>What one simulated tick does to a ball \<open>j\<close> and to the log.\<close>

lemma endTick_ball:
  assumes "beforeHits s = Some s4"
  shows "bid (getBall j (endTick s4)) = bid (getBall j s)"
    and "baseDamage (getBall j (endTick s4)) = baseDamage (getBall j s)"
    and "ramp (getBall j (endTick s4)) = ramp (getBall j s)"
    and "hitCount (getBall j (endTick s4)) = hitCount (getBall j s)
         \<or> hitCount (getBall j (endTick s4)) = hitCount (getBall j s) + 1"
proof -
  let ?s5 = "checkHit IdA s4"
  let ?s6 = "checkHit IdB ?s5"
  have g: "getBall j (endTick s4) = getBall j ?s6"
    by (cases j) (simp_all add: endTick_fields)
  note f = ballFrame_sel[OF beforeHits_ball[OF assms, of j]]
  note a5 = checkHit_attacker_fields[of IdA s4] and v5 = checkHit_victim_fields[of IdA s4]
  note a6 = checkHit_attacker_fields[of IdB ?s5] and v6 = checkHit_victim_fields[of IdB ?s5]
  show "bid (getBall j (endTick s4)) = bid (getBall j s)"
    and "baseDamage (getBall j (endTick s4)) = baseDamage (getBall j s)"
    and "ramp (getBall j (endTick s4)) = ramp (getBall j s)"
    and "hitCount (getBall j (endTick s4)) = hitCount (getBall j s)
         \<or> hitCount (getBall j (endTick s4)) = hitCount (getBall j s) + 1"
    unfolding g using f a5 v5 a6 v6 by (cases j; simp)+
qed

lemma endTick_hp:
  assumes "beforeHits s = Some s4"
  shows "hp (getBall j s) - hp (getBall j (endTick s4)) = 0
    \<or> (hp (getBall j s) - hp (getBall j (endTick s4))
          = baseDamage (getBall (other j) s)
            + ramp (getBall (other j) s) * (hitCount (getBall (other j) (endTick s4)) - 1)
       \<and> hitCount (getBall (other j) (endTick s4)) = hitCount (getBall (other j) s) + 1
       \<and> (\<exists>pre post. events (endTick s4) =
             events s @ pre @ Hit (tick s) (bid (getBall (other j) s)) (bid (getBall j s))
                                 (hp (getBall j s) - hp (getBall j (endTick s4))) # post))"
proof -
  let ?s5 = "checkHit IdA s4"
  let ?s6 = "checkHit IdB ?s5"
  obtain es4 where es4: "events s4 = events s @ es4"
    using beforeHits_events[OF assms] by blast
  have t4: "tick s4 = tick s" using beforeHits_fields(2)[OF assms] .
  note fA = ballFrame_sel[OF beforeHits_ball[OF assms, of IdA], simplified]
  note fB = ballFrame_sel[OF beforeHits_ball[OF assms, of IdB], simplified]
  note a5 = checkHit_attacker_fields[of IdA s4, simplified] and v5 = checkHit_victim_fields[of IdA s4, simplified]
  note a6 = checkHit_attacker_fields[of IdB ?s5, simplified] and v6 = checkHit_victim_fields[of IdB ?s5, simplified]
  note e5 = checkHit_events_if[of IdA s4, simplified] and e6 = checkHit_events_if[of IdB ?s5, simplified]
  show ?thesis
  proof (cases j)
    case IdA
    show ?thesis
    proof (cases "hitLands IdB ?s5")
      case False
      then show ?thesis using IdA fA a5 v6 by (simp add: endTick_fields)
    next
      case True
      have d: "hp (stA s) - hp (stA (endTick s4)) = hitDamage IdB ?s5"
        using True fA a5 v6 by (simp add: endTick_fields)
      have dv: "hitDamage IdB ?s5 = baseDamage (stB s) + ramp (stB s) * (hitCount (stB (endTick s4)) - 1)"
        using True fB v5 a6 by (simp add: endTick_fields hitDamage_def)
      have hc: "hitCount (stB (endTick s4)) = hitCount (stB s) + 1"
        using True fB v5 a6 by (simp add: endTick_fields)
      have "events (endTick s4) = events s @ (es4 @ drop (length (events s4)) (events ?s5))
           @ Hit (tick s) (bid (stB s)) (bid (stA s)) (hitDamage IdB ?s5)
             # (if hp (stA ?s5) - hitDamage IdB ?s5 \<le> 0 then [Dead (tick ?s5) (bid (stA ?s5))] else [])"
        using True e5 e6 es4 t4 fA fB a5 v5 by (simp add: endTick_fields checkHit_frame_fields)
      then have "\<exists>pre post. events (endTick s4) = events s @ pre
           @ Hit (tick s) (bid (stB s)) (bid (stA s)) (hitDamage IdB ?s5) # post"
        by blast
      then show ?thesis using IdA d dv hc by simp
    qed
  next
    case IdB
    show ?thesis
    proof (cases "hitLands IdA s4")
      case False
      then show ?thesis using IdB fB v5 a6 by (simp add: endTick_fields)
    next
      case True
      have d: "hp (stB s) - hp (stB (endTick s4)) = hitDamage IdA s4"
        using True fB v5 a6 by (simp add: endTick_fields)
      have dv: "hitDamage IdA s4 = baseDamage (stA s) + ramp (stA s) * (hitCount (stA (endTick s4)) - 1)"
        using True fA a5 v6 by (simp add: endTick_fields hitDamage_def)
      have hc: "hitCount (stA (endTick s4)) = hitCount (stA s) + 1"
        using True fA a5 v6 by (simp add: endTick_fields)
      have "events (endTick s4) = events s @ es4
           @ Hit (tick s) (bid (stA s)) (bid (stB s)) (hitDamage IdA s4)
             # ((if hp (stB s4) - hitDamage IdA s4 \<le> 0 then [Dead (tick s4) (bid (stB s4))] else [])
                @ drop (length (events ?s5)) (events ?s6))"
        using True e5 e6 es4 t4 fA fB by (simp add: endTick_fields checkHit_frame_fields)
      then have "\<exists>pre post. events (endTick s4) = events s @ pre
           @ Hit (tick s) (bid (stA s)) (bid (stB s)) (hitDamage IdA s4) # post"
        by blast
      then show ?thesis using IdB d dv hc by simp
    qed
  qed
qed


lemma stepSim_ball:
  assumes "stepSim s = Some s'"
  shows "bid (getBall j s') = bid (getBall j s)"
    and "baseDamage (getBall j s') = baseDamage (getBall j s)"
    and "ramp (getBall j s') = ramp (getBall j s)"
    and "hitCount (getBall j s') = hitCount (getBall j s)
         \<or> hitCount (getBall j s') = hitCount (getBall j s) + 1"
  using assms
  by (cases rule: stepSim_cases; cases j; simp add: markDead_def endTick_ball[where j = IdA, simplified]
        endTick_ball[where j = IdB, simplified])+

lemma stepSim_hp:
  assumes "stepSim s = Some s'"
  shows "hp (getBall j s) - hp (getBall j s') = 0
    \<or> (hp (getBall j s) - hp (getBall j s')
          = baseDamage (getBall (other j) s) + ramp (getBall (other j) s) * (hitCount (getBall (other j) s') - 1)
       \<and> hitCount (getBall (other j) s') = hitCount (getBall (other j) s) + 1
       \<and> (\<exists>pre post. events s' =
             events s @ pre @ Hit (tick s) (bid (getBall (other j) s)) (bid (getBall j s))
                                 (hp (getBall j s) - hp (getBall j s')) # post))"
  using assms
proof (cases rule: stepSim_cases)
  case fin
  then show ?thesis by simp
next
  case dead
  then show ?thesis by (simp add: getBall_markDead)
next
  case ceiling
  then show ?thesis by (cases j) simp_all
next
  case (ticked s4)
  show ?thesis unfolding ticked(6) by (rule endTick_hp[OF ticked(5)])
qed

lemma run_weapon_fields:
  assumes "createSim sp = Returned s0" "stepN n s0 = Some s"
  shows "baseDamage (getBall j s) = baseDamage (getBall j s0) \<and> ramp (getBall j s) = ramp (getBall j s0)
    \<and> 0 \<le> hitCount (getBall j s)"
proof -
  obtain a b where ab: "initBall sp (scale (sim sp)) (ballA sp) 0xA1B2C3D4 = Returned a"
    "initBall sp (scale (sim sp)) (ballB sp) 0xB4C3D2A1 = Returned b" "stA s0 = a" "stB s0 = b"
    using createSim_Returned[OF assms(1)] by blast
  have h0: "hitCount (getBall j s0) = 0"
    using initBall_fresh[OF ab(1)] initBall_fresh[OF ab(2)] ab(3,4) by (cases j) simp_all
  let ?P = "\<lambda>s. baseDamage (getBall j s) = baseDamage (getBall j s0)
     \<and> ramp (getBall j s) = ramp (getBall j s0) \<and> 0 \<le> hitCount (getBall j s)"
  show ?thesis
  proof (rule stepN_invariant[OF assms(2), where P = ?P])
    show "?P s0" using h0 by simp
  next
    fix s s' assume p: "?P s" and st: "stepSim s = Some s'"
    show "?P s'" using p stepSim_ball[OF st, of j] by auto
  qed
qed

lemma fresh_weapon_in_ran:
  assumes "createSim sp = Returned s0"
  shows "\<exists>w\<in>ran (weapons sp). baseDamage (getBall j s0) = w_baseDamage w \<and> ramp (getBall j s0) = w_ramp w"
proof -
  obtain a b where ab: "initBall sp (scale (sim sp)) (ballA sp) 0xA1B2C3D4 = Returned a"
    "initBall sp (scale (sim sp)) (ballB sp) 0xB4C3D2A1 = Returned b" "stA s0 = a" "stB s0 = b"
    using createSim_Returned[OF assms(1)] by blast
  show ?thesis
    using initBall_fresh[OF ab(1)] initBall_fresh[OF ab(2)] ab(3,4)
    by (cases j) (auto simp add: ran_def)
qed

lemma example_first_tick:
  assumes "dmg < 10"
  shows "stepSim (exampleState 50 dmg 10 10 3 0)
           = Some (endTick ((exampleState 50 dmg 10 10 3 (Suc 0))\<lparr>tick := 0\<rparr>))"
    and "hp (stA (endTick ((exampleState 50 dmg 10 10 3 (Suc 0))\<lparr>tick := 0\<rparr>))) = 10 - dmg"
    and "hp (stB (endTick ((exampleState 50 dmg 10 10 3 (Suc 0))\<lparr>tick := 0\<rparr>))) = 10 - dmg"
    and "events (endTick ((exampleState 50 dmg 10 10 3 (Suc 0))\<lparr>tick := 0\<rparr>))
           = [Hit 0 IdA IdB dmg, Hit 0 IdB IdA dmg]"
proof -
  let ?s = "exampleState 50 dmg 10 10 3 0"
  let ?s4 = "(exampleState 50 dmg 10 10 3 (Suc 0))\<lparr>tick := 0\<rparr>"
  let ?s5 = "checkHit IdA ?s4"
  have b: "beforeHits ?s = Some ?s4"
    using beforeHits_example[of 50 0 dmg 10 10 3] by simp
  show "stepSim ?s = Some (endTick ?s4)"
    by (rule stepSim_tick[OF _ _ _ _ b]) (simp_all add: exampleState_sel)
  have hA: "hitLands IdA ?s4" by (rule hitLands_example_50)
  have dA: "hitDamage IdA ?s4 = dmg" by (simp add: hitDamage_def exampleState_def)
  have t5: "hp (stA ?s5) = 10" "hp (stB ?s5) = 10 - dmg" "bid (stA ?s5) = IdA" "bid (stB ?s5) = IdB"
    "events ?s5 = [Hit 0 IdA IdB dmg]" "alive (stA ?s5)" "alive (stB ?s5)"
    "pos (stA ?s5) = \<lparr>vec_x = 50, vec_y = 50\<rparr>" "pos (stB ?s5) = \<lparr>vec_x = 50, vec_y = 50\<rparr>"
    "weaponReach (stB ?s5) = 0" "tipR (stB ?s5) = 1" "r (stA ?s5) = 2"
    "baseDamage (stB ?s5) = dmg" "ramp (stB ?s5) = 1" "hitCount (stB ?s5) = 0"
    using checkHit_victim[OF hA] checkHit_events[OF hA] checkHit_attacker[OF hA] assms
    by (simp_all add: dA) (simp_all add: checkHit_def weaponTipScaled_def dist2_def exampleState_def Let_def split_def
         mathRound_def TRIG_SCALE_def)
  have hB: "hitLands IdB ?s5"
    by (simp add: hitLands_def Let_def weaponTipScaled_def dist2_def t5 mathRound_def TRIG_SCALE_def)
  have dB: "hitDamage IdB ?s5 = dmg" by (simp add: hitDamage_def t5)
  show "hp (stA (endTick ?s4)) = 10 - dmg" "hp (stB (endTick ?s4)) = 10 - dmg"
    "events (endTick ?s4) = [Hit 0 IdA IdB dmg, Hit 0 IdB IdA dmg]"
    using checkHit_attacker_fields(1)[of IdB ?s5] checkHit_victim(1)[OF hB] checkHit_events[OF hB] assms
    by (simp_all add: endTick_fields t5 dB checkHit_frame_fields)
qed

text \<open>
  C6, as stated, fails: with a weapon whose base damage is -5 a hit raises the victim's
  health. In the example with coincident centres ball B starts at health 10 and has
  health 15 after the first tick.
\<close>

theorem health_increases_counterexample:
  "map_option (hp \<circ> stB) (simAfter (exampleSpec 50 (- 5) 10 10 3) 0) = Some 10
   \<and> map_option (hp \<circ> stB) (simAfter (exampleSpec 50 (- 5) 10 10 3) 1) = Some 15
   \<and> map_option events (simAfter (exampleSpec 50 (- 5) 10 10 3) 1)
       = Some [Hit 0 IdA IdB (- 5), Hit 0 IdB IdA (- 5)]"
proof -
  have "simAfter (exampleSpec 50 (- 5) 10 10 3) 0 = Some (exampleState 50 (- 5) 10 10 3 0)"
    by (simp add: simAfter_def createSim_example)
  moreover have "simAfter (exampleSpec 50 (- 5) 10 10 3) 1
      = Some (endTick ((exampleState 50 (- 5) 10 10 3 (Suc 0))\<lparr>tick := 0\<rparr>))"
    by (simp add: simAfter_def createSim_example example_first_tick(1))
  ultimately show ?thesis by (simp add: exampleState_sel example_first_tick)
qed

text \<open>
  C6, amended: in every run, one \<open>stepSim\<close> call either leaves a ball's health as it
  was or lowers it by exactly \<open>baseDamage + ramp * (hitCount - 1)\<close>, with the attacker's
  base damage and ramp and its hit count right after that hit, and then a \<open>hit\<close> event
  with this damage, from the attacker to the ball, is appended in that call; no other step
  changes health. When no weapon of the description has a negative base damage or ramp,
  health never increases.
\<close>

theorem health_changes_only_by_hits:
  assumes "createSim sp = Returned s0" "stepN n s0 = Some s" "stepSim s = Some s'"
  shows "(hp (getBall j s) - hp (getBall j s') = 0
      \<or> (hp (getBall j s) - hp (getBall j s')
            = baseDamage (getBall (other j) s)
              + ramp (getBall (other j) s) * (hitCount (getBall (other j) s') - 1)
         \<and> hitCount (getBall (other j) s') = hitCount (getBall (other j) s) + 1
         \<and> (\<exists>pre post. events s' =
               events s @ pre @ Hit (tick s) (bid (getBall (other j) s)) (bid (getBall j s))
                                   (hp (getBall j s) - hp (getBall j s')) # post)))
    \<and> ((\<forall>w\<in>ran (weapons sp). 0 \<le> w_baseDamage w \<and> 0 \<le> w_ramp w)
         \<longrightarrow> hp (getBall j s') \<le> hp (getBall j s))"
proof -
  note change = stepSim_hp[OF assms(3), of j]
  have "hp (getBall j s') \<le> hp (getBall j s)"
    if nn: "\<forall>w\<in>ran (weapons sp). 0 \<le> w_baseDamage w \<and> 0 \<le> w_ramp w"
  proof -
    obtain w where w: "w \<in> ran (weapons sp)" "baseDamage (getBall (other j) s0) = w_baseDamage w"
      "ramp (getBall (other j) s0) = w_ramp w"
      using fresh_weapon_in_ran[OF assms(1), of "other j"] by blast
    have f: "0 \<le> baseDamage (getBall (other j) s)" "0 \<le> ramp (getBall (other j) s)"
      "0 \<le> hitCount (getBall (other j) s)"
      using run_weapon_fields[OF assms(1,2), of "other j"] w nn by auto
    from change show ?thesis
    proof
      assume "hp (getBall j s) - hp (getBall j s') = 0"
      then show ?thesis by simp
    next
      assume h: "hp (getBall j s) - hp (getBall j s')
            = baseDamage (getBall (other j) s)
              + ramp (getBall (other j) s) * (hitCount (getBall (other j) s') - 1)
         \<and> hitCount (getBall (other j) s') = hitCount (getBall (other j) s) + 1
         \<and> (\<exists>pre post. events s' =
               events s @ pre @ Hit (tick s) (bid (getBall (other j) s)) (bid (getBall j s))
                                   (hp (getBall j s) - hp (getBall j s')) # post)"
      then have "hp (getBall j s) - hp (getBall j s')
          = baseDamage (getBall (other j) s) + ramp (getBall (other j) s) * hitCount (getBall (other j) s)"
        by simp
      moreover have "0 \<le> ramp (getBall (other j) s) * hitCount (getBall (other j) s)"
        using f by simp
      ultimately show ?thesis using f(1) by linarith
    qed
  qed
  with change show ?thesis by blast
qed

theorem health_changes_only_by_hits_witness:
  "createSim (exampleSpec 50 5 10 10 3) = Returned (exampleState 50 5 10 10 3 0)
   \<and> stepN 0 (exampleState 50 5 10 10 3 0) = Some (exampleState 50 5 10 10 3 0)
   \<and> stepSim (exampleState 50 5 10 10 3 0)
        = Some (endTick ((exampleState 50 5 10 10 3 (Suc 0))\<lparr>tick := 0\<rparr>))
   \<and> ran (weapons (exampleSpec 50 5 10 10 3)) = {exampleWeapon 5}
   \<and> 0 \<le> w_baseDamage (exampleWeapon 5) \<and> 0 \<le> w_ramp (exampleWeapon 5)
   \<and> hp (stB (exampleState 50 5 10 10 3 0)) = 10
   \<and> hp (stB (endTick ((exampleState 50 5 10 10 3 (Suc 0))\<lparr>tick := 0\<rparr>))) = 5
   \<and> hp (stB (endTick ((exampleState 50 5 10 10 3 (Suc 0))\<lparr>tick := 0\<rparr>)))
        \<le> hp (stB (exampleState 50 5 10 10 3 0))
   \<and> events (endTick ((exampleState 50 5 10 10 3 (Suc 0))\<lparr>tick := 0\<rparr>))
        = [Hit 0 IdA IdB 5, Hit 0 IdB IdA 5]"
proof -
  have nn: "\<forall>w\<in>ran (weapons (exampleSpec 50 5 10 10 3)). 0 \<le> w_baseDamage w \<and> 0 \<le> w_ramp w"
    by (simp add: exampleSpec_def exampleWeapon_def)
  have st: "stepSim (exampleState 50 5 10 10 3 0)
        = Some (endTick ((exampleState 50 5 10 10 3 (Suc 0))\<lparr>tick := 0\<rparr>))"
    by (rule example_first_tick) simp
  have s0: "stepN 0 (exampleState 50 5 10 10 3 0) = Some (exampleState 50 5 10 10 3 0)" by simp
  have rn: "ran (weapons (exampleSpec 50 5 10 10 3)) = {exampleWeapon 5}"
    by (simp add: exampleSpec_def)
  have w: "0 \<le> w_baseDamage (exampleWeapon 5) \<and> 0 \<le> w_ramp (exampleWeapon 5)"
    by (simp add: exampleWeapon_def)
  show ?thesis
    using health_changes_only_by_hits[OF createSim_example s0 st, of IdB] nn rn w
    by (simp add: createSim_example st example_first_tick exampleState_sel)
qed

section \<open>The alive flag (C10)\<close>

text \<open>
  A dead ball of a run: its health is at most 0, the match is finished and the log holds
  its \<open>dead\<close> event right after a \<open>hit\<close> event against it.
\<close>

lemma endTick_death:
  assumes "beforeHits s = Some s4" "alive (stA s)" "alive (stB s)"
    and "\<not> alive (getBall i (endTick s4))"
  shows "hp (getBall i (endTick s4)) \<le> 0 \<and> isDone (endTick s4)
    \<and> (\<exists>pre t a d post. events (endTick s4)
          = pre @ [Hit t a (bid (getBall i (endTick s4))) d, Dead t (bid (getBall i (endTick s4)))] @ post)"
proof -
  let ?s5 = "checkHit IdA s4"
  let ?s6 = "checkHit IdB ?s5"
  have al4: "alive (stA s4)" "alive (stB s4)"
    using ballFrame_sel(6)[OF beforeHits_ball[OF assms(1), of IdA]]
      ballFrame_sel(6)[OF beforeHits_ball[OF assms(1), of IdB]] assms(2,3) by simp_all
  have g: "getBall i (endTick s4) = getBall i ?s6" by (cases i) (simp_all add: endTick_fields)
  have dn: "isDone (endTick s4)"
    using assms(4) by (cases i) (simp_all add: endTick_fields(4))
  have ev: "events (endTick s4) = events ?s6" by (simp add: endTick_fields)
  show ?thesis
  proof (cases "alive (stB ?s5)")
    case False
    then have l: "hitLands IdA s4" using al4(2) checkHit_miss[of IdA s4] by (cases "hitLands IdA s4") simp_all
    have v: "hp (stB s4) - hitDamage IdA s4 \<le> 0"
      using False checkHit_victim(2)[OF l] by simp
    have "\<not> hitLands IdB ?s5" using False hitLands_dead[of IdB ?s5] by simp
    then have same: "?s6 = ?s5" by (rule checkHit_miss)
    have a5: "alive (stA ?s5)" using checkHit_attacker_alive[of IdA s4] al4 by simp
    have i: "i = IdB" using assms(4) a5 False same g by (cases i) simp_all
    have "events ?s5 = events s4 @ [Hit (tick s4) (bid (stA s4)) (bid (stB ?s5)) (hitDamage IdA s4),
          Dead (tick s4) (bid (stB ?s5))] @ []"
      using checkHit_events[OF l] v checkHit_victim(3)[OF l] by simp
    then have "\<exists>pre t a d post. events ?s5 = pre @ [Hit t a (bid (stB ?s5)) d, Dead t (bid (stB ?s5))] @ post"
      by blast
    moreover have "hp (stB ?s5) \<le> 0" using checkHit_victim(1)[OF l] v by simp
    ultimately show ?thesis using i dn ev same g by simp
  next
    case True
    have a5: "alive (stA ?s5)" using checkHit_attacker_alive[of IdA s4] al4 by simp
    have b6: "alive (stB ?s6)" using checkHit_attacker_alive[of IdB ?s5] True by simp
    then have i: "i = IdA" using assms(4) g by (cases i) simp_all
    then have d6: "\<not> alive (stA ?s6)" using assms(4) g by simp
    then have l: "hitLands IdB ?s5" using a5 checkHit_miss[of IdB ?s5] by (cases "hitLands IdB ?s5") simp_all
    have v: "hp (stA ?s5) - hitDamage IdB ?s5 \<le> 0"
      using d6 checkHit_victim(2)[OF l] by simp
    have "events ?s6 = events ?s5 @ [Hit (tick ?s5) (bid (stB ?s5)) (bid (stA ?s6)) (hitDamage IdB ?s5),
          Dead (tick ?s5) (bid (stA ?s6))] @ []"
      using checkHit_events[OF l] v checkHit_victim(3)[OF l] by simp
    then have "\<exists>pre t a d post. events ?s6 = pre @ [Hit t a (bid (stA ?s6)) d, Dead t (bid (stA ?s6))] @ post"
      by blast
    moreover have "hp (stA ?s6) \<le> 0" using checkHit_victim(1)[OF l] v by simp
    ultimately show ?thesis using i dn ev g by simp
  qed
qed

lemma run_deaths:
  assumes "createSim sp = Returned s0" "stepN n s0 = Some s"
  shows "(\<forall>i. \<not> alive (getBall i s) \<longrightarrow>
            hp (getBall i s) \<le> 0 \<and> isDone s
            \<and> (\<exists>pre t a d post. events s = pre @ [Hit t a (bid (getBall i s)) d, Dead t (bid (getBall i s))] @ post))
    \<and> (isDone s \<longrightarrow> \<not> alive (stA s) \<or> \<not> alive (stB s)
          \<or> (maxTicks (sim (spec s)) \<le> tick s \<and> (\<exists>pre w. events s = pre @ [Timeout (tick s) w] \<and> winner s = Some w)))"
    (is "?P s")
proof (rule stepN_invariant[OF assms(2), where P = ?P])
  obtain a b where ab: "initBall sp (scale (sim sp)) (ballA sp) 0xA1B2C3D4 = Returned a"
    "initBall sp (scale (sim sp)) (ballB sp) 0xB4C3D2A1 = Returned b" "stA s0 = a" "stB s0 = b"
    "\<not> isDone s0"
    using createSim_Returned[OF assms(1)] by blast
  have "alive (getBall i s0)" for i
    using initBall_fresh[OF ab(1)] initBall_fresh[OF ab(2)] ab(3,4) by (cases i) simp_all
  then show "?P s0" using ab(5) by simp
next
  fix s s' assume p: "?P s" and st: "stepSim s = Some s'"
  from st show "?P s'"
  proof (cases rule: stepSim_cases)
    case fin
    then show ?thesis using p by simp
  next
    case dead
    then have "\<not> alive (getBall IdA s) \<or> \<not> alive (getBall IdB s)" by simp
    then have "isDone s" using p by blast
    then show ?thesis using dead by simp
  next
    case ceiling
    have "alive (getBall i s')" for i using ceiling by (cases i) simp_all
    then show ?thesis using ceiling by simp
  next
    case (ticked s4)
    have d: "\<not> alive (getBall i s') \<Longrightarrow>
            hp (getBall i s') \<le> 0 \<and> isDone s'
            \<and> (\<exists>pre t a d post. events s' = pre @ [Hit t a (bid (getBall i s')) d, Dead t (bid (getBall i s'))] @ post)" for i
      unfolding ticked(6) by (rule endTick_death[OF ticked(5) ticked(2,3)])
    have "isDone s' \<longrightarrow> \<not> alive (stA s') \<or> \<not> alive (stB s')"
      using ticked(1) beforeHits_fields(3)[OF ticked(5)] by (simp add: ticked(6) endTick_fields(4))
    then show ?thesis using d by blast
  qed
qed


text \<open>
  C10: \<open>createSim\<close> sets both alive flags, whatever the starting health, and does not
  finish the match. In a run from that state the alive flag of a ball is false only after
  a hit that left its health at 0 or below (its \<open>dead\<close> event follows that \<open>hit\<close> event
  in the log); as long as the match is not finished every \<open>stepSim\<close> call has simulated
  one tick, and a finished match has a dead ball or has reached the tick ceiling and
  logged a \<open>timeout\<close>.
\<close>

theorem starts_alive_whatever_health:
  assumes "createSim sp = Returned s0"
  shows "alive (stA s0) \<and> alive (stB s0)
    \<and> hp (stA s0) = b_hp (ballA sp) \<and> hp (stB s0) = b_hp (ballB sp) \<and> \<not> isDone s0
    \<and> (0 < maxTicks (sim sp) \<longrightarrow> (\<exists>s1. stepSim s0 = Some s1 \<and> tick s1 = 1))
    \<and> (\<forall>n s. stepN n s0 = Some s \<longrightarrow>
          (\<not> isDone s \<longrightarrow> tick s = n \<and> alive (stA s) \<and> alive (stB s))
        \<and> (\<forall>i. \<not> alive (getBall i s) \<longrightarrow>
               hp (getBall i s) \<le> 0
               \<and> (\<exists>pre t a d post. events s =
                     pre @ [Hit t a (bid (getBall i s)) d, Dead t (bid (getBall i s))] @ post))
        \<and> (isDone s \<longrightarrow> \<not> alive (stA s) \<or> \<not> alive (stB s)
               \<or> (tick s = maxTicks (sim sp) \<and> (\<exists>pre w. events s = pre @ [Timeout (tick s) w]))))"
proof -
  obtain a b where ab: "initBall sp (scale (sim sp)) (ballA sp) 0xA1B2C3D4 = Returned a"
    "initBall sp (scale (sim sp)) (ballB sp) 0xB4C3D2A1 = Returned b" "stA s0 = a" "stB s0 = b"
    "spec s0 = sp" "tick s0 = 0" "\<not> isDone s0"
    using createSim_Returned[OF assms] by blast
  have fresh: "alive (stA s0)" "alive (stB s0)" "hp (stA s0) = b_hp (ballA sp)"
    "hp (stB s0) = b_hp (ballB sp)"
    using initBall_fresh[OF ab(1)] initBall_fresh[OF ab(2)] ab(3,4) by simp_all
  have first: "\<exists>s1. stepSim s0 = Some s1 \<and> tick s1 = 1" if "0 < maxTicks (sim sp)"
  proof -
    obtain s4 where b: "beforeHits s0 = Some s4" using beforeHits_total by blast
    have "stepSim s0 = Some (endTick s4)"
      using that ab(5,6) by (intro stepSim_tick ab(7) fresh b) simp
    moreover have "tick (endTick s4) = 1"
      using beforeHits_fields(2)[OF b] ab(6) by (simp add: endTick_fields)
    ultimately show ?thesis by blast
  qed
  have run: "(\<not> isDone s \<longrightarrow> tick s = n \<and> alive (stA s) \<and> alive (stB s))
        \<and> (\<forall>i. \<not> alive (getBall i s) \<longrightarrow>
               hp (getBall i s) \<le> 0
               \<and> (\<exists>pre t a d post. events s =
                     pre @ [Hit t a (bid (getBall i s)) d, Dead t (bid (getBall i s))] @ post))
        \<and> (isDone s \<longrightarrow> \<not> alive (stA s) \<or> \<not> alive (stB s)
               \<or> (tick s = maxTicks (sim sp) \<and> (\<exists>pre w. events s = pre @ [Timeout (tick s) w])))"
    if st: "stepN n s0 = Some s" for n s
  proof -
    note c = run_counts_ticks[OF assms st] and d = run_deaths[OF assms st]
    have "tick s = maxTicks (sim sp)" if "maxTicks (sim (spec s)) \<le> tick s"
      using that c by simp
    then show ?thesis using c d by blast
  qed
  show ?thesis using fresh ab(7) first run by blast
qed

theorem starts_alive_whatever_health_witness:
  "createSim (exampleSpec 80 5 0 (- 3) 2) = Returned (exampleState 80 5 0 (- 3) 2 0)
   \<and> hp (stA (exampleState 80 5 0 (- 3) 2 0)) = 0 \<and> hp (stB (exampleState 80 5 0 (- 3) 2 0)) = - 3
   \<and> alive (stA (exampleState 80 5 0 (- 3) 2 0)) \<and> alive (stB (exampleState 80 5 0 (- 3) 2 0))
   \<and> \<not> isDone (exampleState 80 5 0 (- 3) 2 0)
   \<and> 0 < maxTicks (sim (exampleSpec 80 5 0 (- 3) 2))
   \<and> stepSim (exampleState 80 5 0 (- 3) 2 0) = Some (exampleState 80 5 0 (- 3) 2 1)
   \<and> stepN 2 (exampleState 80 5 0 (- 3) 2 0) = Some (exampleState 80 5 0 (- 3) 2 2)
   \<and> \<not> isDone (exampleState 80 5 0 (- 3) 2 2) \<and> tick (exampleState 80 5 0 (- 3) 2 2) = 2
   \<and> stepN 3 (exampleState 80 5 0 (- 3) 2 0)
       = Some ((exampleState 80 5 0 (- 3) 2 2)\<lparr>events := [Timeout 2 IdA], rng := 1, isDone := True, winner := Some IdA\<rparr>)"
proof -
  let ?s0 = "exampleState 80 5 0 (- 3) 2 0"
  have s1: "stepSim ?s0 = Some (exampleState 80 5 0 (- 3) 2 1)"
    using stepSim_example_apart[of 0 2 5 0 "- 3"] by simp
  have s2: "stepN 2 ?s0 = Some (exampleState 80 5 0 (- 3) 2 2)"
    by (rule stepN_example_apart) simp_all
  have "stepN (Suc 2) ?s0
       = Some ((exampleState 80 5 0 (- 3) 2 2)\<lparr>events := [Timeout 2 IdA], rng := 1, isDone := True, winner := Some IdA\<rparr>)"
    unfolding stepN.simps s2 by (simp add: stepSim_example_ceiling timeoutWinner_example)
  then have s3: "stepN 3 ?s0
       = Some ((exampleState 80 5 0 (- 3) 2 2)\<lparr>events := [Timeout 2 IdA], rng := 1, isDone := True, winner := Some IdA\<rparr>)"
    by (simp add: numeral_3_eq_3)
  show ?thesis
    using starts_alive_whatever_health[OF createSim_example[of 80 5 0 "- 3" 2]] s1 s2 s3
    by (simp add: createSim_example exampleState_sel)
qed

end
